theory Spec2Isabelle
  imports Main
begin

section \<open>Values shared by the orchestrator and the git module\<close>

text \<open>
  The action consists of an orchestrator (\<^verbatim>\<open>src/main.ts\<close>) and a module of git
  primitives (\<^verbatim>\<open>src/git.ts\<close>). Every function of interest is asynchronous and talks to
  two collaborators: the hosting platform (through Octokit) and the \<^verbatim>\<open>git\<close> executable
  (through \<^verbatim>\<open>child_process.spawn\<close>). The embedding makes both explicit: a computation
  takes the list of interactions performed so far and returns its result together with
  the extended list; what a collaborator answers is supplied by a \<open>world\<close>, which may
  look at everything that happened before.
\<close>

subsection \<open>Thrown values\<close>

text \<open>
  \<^verbatim>\<open>ExitError\<close> carries message, exit code (\<^verbatim>\<open>null\<close> when the process was killed by a
  signal) and captured output. \<^verbatim>\<open>TimeoutError\<close>, \<^verbatim>\<open>NoError\<close> and \<^verbatim>\<open>ClientError\<close> are the
  subclasses of \<^verbatim>\<open>Error\<close> declared by \<^verbatim>\<open>main.ts\<close>; \<open>Thrown\<close> is a bare string given to
  \<^verbatim>\<open>throw\<close>.
\<close>

datatype failure =
    ExitError string "nat option" "string option"
  | Error string
  | TimeoutError
  | NoError
  | ClientError string
  | Thrown string

fun isExitError :: "failure \<Rightarrow> bool" where
  "isExitError (ExitError m c out) = True"
| "isExitError e = False"

subsection \<open>Strings\<close>

definition startsWith :: "string \<Rightarrow> string \<Rightarrow> bool" where
  "startsWith s p = (take (length p) s = p)"

fun join :: "string \<Rightarrow> string list \<Rightarrow> string" where
  "join sep [] = []"
| "join sep [x] = x"
| "join sep (x # y # ys) = x @ sep @ join sep (y # ys)"

text \<open>Decimal rendering of a non-negative integer inside a template literal.\<close>

definition digit :: "nat \<Rightarrow> char" where
  "digit d = ''0123456789'' ! d"

fun show_nat :: "nat \<Rightarrow> string" where
  "show_nat n = (if n < 10 then [digit n] else show_nat (n div 10) @ [digit (n mod 10)])"

declare show_nat.simps [simp del]

text \<open>\<^verbatim>\<open>String.prototype.split\<close> on a one-character separator: empty pieces are kept.\<close>

fun split :: "char \<Rightarrow> string \<Rightarrow> string list" where
  "split c [] = [[]]"
| "split c (x # xs) =
     (if x = c then [] # split c xs
      else (case split c xs of [] \<Rightarrow> [[x]] | p # ps \<Rightarrow> (x # p) # ps))"

subsection \<open>Pull requests as delivered by the platform\<close>

record repo_common =
  repo_id :: nat
  name :: string
  full_name :: string
  owner_login :: string

record ref_common =
  ref :: string
  sha :: string
  user_login :: string
  repo :: repo_common

record pull_request_common =
  number :: nat
  head :: ref_common
  base :: ref_common
  title :: string
  merge_commit_sha :: "string option"
  labels :: "string list"

record pull_request_extended = pull_request_common +
  mergeable :: "bool option"
  mergeable_state :: string

record commit_status =
  status_context :: string
  status_state :: string

datatype merge_method = Merge | Squash | Rebase

text \<open>
  The two Octokit clients of \<^verbatim>\<open>main.ts\<close>: the one built from the workflow token
  (\<^verbatim>\<open>context.octokit\<close>) and the one built from the application's installation token
  (\<^verbatim>\<open>context.authenticatedOctokit\<close>).
\<close>

datatype client = Actions | App

subsection \<open>Interactions\<close>

text \<open>
  How a spawned process ends: it exits (code, trimmed standard output), or it cannot be
  run at all and the \<^verbatim>\<open>error\<close> event fires.
\<close>

datatype proc_outcome = Exited "nat option" string | SpawnFailed

text \<open>Each interaction is recorded with what was asked and what came back.\<close>

datatype event =
    EvSpawn string "string list" proc_outcome
  | EvDelay nat
  | EvNow nat
  | EvPullsGet client string string nat "failure + pull_request_extended"
  | EvPullsMerge client string string nat "string option" string merge_method "failure + nat"
  | EvListStatuses client string string string "failure + commit_status list"
  | EvCreateComment client nat string string string "failure + unit"
  | EvCreateStatus client string string string string string string "failure + unit"
  | EvAppToken "failure + string"

type_synonym trace = "event list"

record world =
  spawn :: "trace \<Rightarrow> string \<Rightarrow> string list \<Rightarrow> proc_outcome"
  getTime :: "trace \<Rightarrow> nat"
  environ :: "string \<Rightarrow> string option"
  getInput :: "string \<Rightarrow> failure + string"
  pulls_get :: "trace \<Rightarrow> client \<Rightarrow> string \<Rightarrow> string \<Rightarrow> nat \<Rightarrow> failure + pull_request_extended"
  pulls_merge :: "trace \<Rightarrow> client \<Rightarrow> string \<Rightarrow> string \<Rightarrow> nat \<Rightarrow> string option \<Rightarrow> string
                   \<Rightarrow> merge_method \<Rightarrow> failure + nat"
  listStatusesForRef :: "trace \<Rightarrow> client \<Rightarrow> string \<Rightarrow> string \<Rightarrow> string \<Rightarrow> failure + commit_status list"
  createComment :: "trace \<Rightarrow> client \<Rightarrow> nat \<Rightarrow> string \<Rightarrow> string \<Rightarrow> string \<Rightarrow> failure + unit"
  createStatus :: "trace \<Rightarrow> client \<Rightarrow> string \<Rightarrow> string \<Rightarrow> string \<Rightarrow> string \<Rightarrow> string \<Rightarrow> string
                    \<Rightarrow> failure + unit"
  appToken :: "trace \<Rightarrow> failure + string"

subsection \<open>Asynchronous computations\<close>

type_synonym 'a io = "trace \<Rightarrow> (failure + 'a) \<times> trace"

definition pure_io :: "'a \<Rightarrow> 'a io" where
  "pure_io x tr = (Inr x, tr)"

definition throw :: "failure \<Rightarrow> 'a io" where
  "throw e tr = (Inl e, tr)"

definition bind_io :: "'a io \<Rightarrow> ('a \<Rightarrow> 'b io) \<Rightarrow> 'b io" where
  "bind_io m f tr = (case m tr of (Inl e, tr') \<Rightarrow> (Inl e, tr') | (Inr x, tr') \<Rightarrow> f x tr')"

definition catch_io :: "'a io \<Rightarrow> (failure \<Rightarrow> 'a io) \<Rightarrow> 'a io" where
  "catch_io m h tr = (case m tr of (Inl e, tr') \<Rightarrow> h e tr' | (Inr x, tr') \<Rightarrow> (Inr x, tr'))"

text \<open>\<^verbatim>\<open>delay(timeout)\<close>: resolves after the timer; it cannot fail.\<close>

definition delay :: "nat \<Rightarrow> unit io" where
  "delay ms tr = (Inr (), tr @ [EvDelay ms])"

section \<open>The git module\<close>

text \<open>
  Two states of the module are in the repository: \<^verbatim>\<open>src/git.ts\<close> and a compiled later
  state that adds \<^verbatim>\<open>rawGit\<close> and \<^verbatim>\<open>removeGitHubConfigs\<close> (which \<^verbatim>\<open>main.ts\<close> calls). They
  agree on every function modelled here except for the wording of error messages, the
  reference handed to \<^verbatim>\<open>git merge\<close>, and the preparation steps of \<^verbatim>\<open>merge\<close>. The
  functions take the state of the module as their first argument.
\<close>

datatype git_module = GitTs | GitJs

definition COMMON_ARGS :: "string list" where
  "COMMON_ARGS = [''-c'', ''user.name=GitHub'', ''-c'', ''user.email=noreply@github.com'']"


definition show_code :: "nat option \<Rightarrow> string" where
  "show_code c = (case c of None \<Rightarrow> ''null'' | Some n \<Rightarrow> show_nat n)"

text \<open>
  \<^verbatim>\<open>rawGit(cwd, args)\<close>: runs \<^verbatim>\<open>git\<close> with exactly \<open>args\<close>; \<open>shown\<close> is the argument list
  the message is built from.
\<close>

definition command :: "string list \<Rightarrow> string" where
  "command shown = (if ''clone'' \<in> set shown then ''git clone'' else ''git '' @ join '' '' shown)"

definition run_git :: "world \<Rightarrow> string \<Rightarrow> string list \<Rightarrow> string list \<Rightarrow> string io" where
  "run_git w cwd shown argv tr =
     (let out = spawn w tr cwd argv; tr' = tr @ [EvSpawn cwd argv out] in
      case out of
        SpawnFailed \<Rightarrow> (Inl (Error (''command failed: '' @ command shown)), tr')
      | Exited code commandOutput \<Rightarrow>
          if code = Some 0 then (Inr commandOutput, tr')
          else (Inl (ExitError (''command failed with code '' @ show_code code @ '': '' @ command shown)
                       code (Some commandOutput)), tr'))"

definition rawGit :: "world \<Rightarrow> string \<Rightarrow> string list \<Rightarrow> string io" where
  "rawGit w cwd args = run_git w cwd args args"

text \<open>
  \<^verbatim>\<open>git(cwd, ...args)\<close>: \<^verbatim>\<open>null\<close> arguments are dropped before spawning. In \<^verbatim>\<open>git.ts\<close> the
  message shows the arguments as given (a \<^verbatim>\<open>null\<close> joins as the empty string); the
  compiled state shows what is spawned.
\<close>

definition nonNull :: "string option list \<Rightarrow> string list" where
  "nonNull args = concat (map (\<lambda>a. case a of None \<Rightarrow> [] | Some s \<Rightarrow> [s]) args)"

definition asShown :: "string option list \<Rightarrow> string list" where
  "asShown args = map (\<lambda>a. case a of None \<Rightarrow> [] | Some s \<Rightarrow> s) args"

definition git :: "git_module \<Rightarrow> world \<Rightarrow> string \<Rightarrow> string option list \<Rightarrow> string io" where
  "git v w cwd args =
     (case v of
        GitTs \<Rightarrow> run_git w cwd (asShown args) (COMMON_ARGS @ nonNull args)
      | GitJs \<Rightarrow> rawGit w cwd (COMMON_ARGS @ nonNull args))"

definition abortMerge :: "git_module \<Rightarrow> world \<Rightarrow> string \<Rightarrow> unit io" where
  "abortMerge v w dir =
     catch_io (bind_io (git v w dir [Some ''merge'', Some ''--abort'']) (\<lambda>_. pure_io ()))
       (\<lambda>err. case err of
                 ExitError m code out \<Rightarrow> if code = Some 128 then pure_io () else throw err
               | _ \<Rightarrow> throw err)"

text \<open>
  \<^verbatim>\<open>mergeBase(dir, ...refs)\<close>. The loop replaces the first two references by their merge
  base until one is left; \<open>mergeBase_loop a rest\<close> is the loop with \<open>todo = a # rest\<close>. The
  \<^verbatim>\<open>try\<close> block encloses the whole loop.
\<close>

fun mergeBase_loop :: "git_module \<Rightarrow> world \<Rightarrow> string \<Rightarrow> string \<Rightarrow> string list \<Rightarrow> string io" where
  "mergeBase_loop v w dir a [] = pure_io a"
| "mergeBase_loop v w dir a (b # rest) =
     bind_io (git v w dir [Some ''merge-base'', Some a, Some b])
       (\<lambda>base. mergeBase_loop v w dir base rest)"

definition mergeBase :: "git_module \<Rightarrow> world \<Rightarrow> string \<Rightarrow> string list \<Rightarrow> string option io" where
  "mergeBase v w dir refs =
     (case refs of
        [r] \<Rightarrow> pure_io (Some r)
      | [] \<Rightarrow> throw (Error ''empty refs!'')
      | a # rest \<Rightarrow>
          catch_io (bind_io (mergeBase_loop v w dir a rest) (\<lambda>b. pure_io (Some b)))
            (\<lambda>e. case e of
                   ExitError m code out \<Rightarrow> if code = Some 1 then pure_io None else throw e
                 | _ \<Rightarrow> throw e))"









text \<open>
  \<^verbatim>\<open>canMergeCleanly\<close> and \<^verbatim>\<open>merge\<close>. \<^verbatim>\<open>git.ts\<close> hands the branch name to \<^verbatim>\<open>git merge\<close>, the
  later state the remote-tracking reference; the later \<^verbatim>\<open>merge\<close> also checks out the base
  branch, pulls and fetches first. After the \<^verbatim>\<open>try\<close> statement both functions only
  \<^verbatim>\<open>return null\<close>, so the statement's value is the function's.
\<close>

definition mergeRef :: "git_module \<Rightarrow> string \<Rightarrow> string" where
  "mergeRef v mergingBranch =
     (case v of GitTs \<Rightarrow> mergingBranch | GitJs \<Rightarrow> ''refs/remotes/origin/'' @ mergingBranch)"

definition prepare :: "git_module \<Rightarrow> world \<Rightarrow> string \<Rightarrow> string \<Rightarrow> string \<Rightarrow> unit io" where
  "prepare v w dir base' mergingBranch =
     bind_io (git v w dir [Some ''checkout'', Some base'])
       (\<lambda>_. bind_io (git v w dir [Some ''pull'', Some ''--quiet'', Some ''--no-commit''])
         (\<lambda>_. bind_io (git v w dir [Some ''fetch'', Some ''--quiet'', Some ''origin'',
                                     Some (mergingBranch @ '':refs/remotes/origin/'' @ mergingBranch)])
           (\<lambda>_. pure_io ())))"

definition afterFailedMerge :: "git_module \<Rightarrow> world \<Rightarrow> string \<Rightarrow> failure \<Rightarrow> string option io" where
  "afterFailedMerge v w dir err =
     bind_io (abortMerge v w dir)
       (\<lambda>_. case err of ExitError m code out \<Rightarrow> pure_io out | _ \<Rightarrow> pure_io None)"

definition canMergeCleanly :: "git_module \<Rightarrow> world \<Rightarrow> string \<Rightarrow> string \<Rightarrow> string \<Rightarrow> string option io" where
  "canMergeCleanly v w dir base' mergingBranch =
     bind_io (prepare v w dir base' mergingBranch)
       (\<lambda>_. catch_io
          (bind_io (git v w dir [Some ''merge'', Some ''--quiet'', Some ''--no-commit'',
                                 Some (mergeRef v mergingBranch)])
             (\<lambda>_. bind_io (abortMerge v w dir) (\<lambda>_. pure_io None)))
          (afterFailedMerge v w dir))"

definition mergeArgs :: "git_module \<Rightarrow> string \<Rightarrow> string option \<Rightarrow> string option list" where
  "mergeArgs v mergingBranch message =
     (case message of
        None \<Rightarrow> [Some ''merge'', Some ''--quiet'', Some ''--no-edit'', Some (mergeRef v mergingBranch)]
      | Some m \<Rightarrow>
          if m = [] then [Some ''merge'', Some ''--quiet'', Some ''--no-edit'', Some (mergeRef v mergingBranch)]
          else [Some ''merge'', Some ''--quiet'', Some ''--no-edit'', Some ''-m'', Some m,
                Some (mergeRef v mergingBranch)])"

definition merge :: "git_module \<Rightarrow> world \<Rightarrow> string \<Rightarrow> string \<Rightarrow> string \<Rightarrow> string option \<Rightarrow> string option io" where
  "merge v w dir base' mergingBranch message =
     bind_io (case v of GitTs \<Rightarrow> pure_io () | GitJs \<Rightarrow> prepare v w dir base' mergingBranch)
       (\<lambda>_. catch_io
          (bind_io (git v w dir (mergeArgs v mergingBranch message)) (\<lambda>_. pure_io None))
          (afterFailedMerge v w dir))"

definition setRemote :: "git_module \<Rightarrow> world \<Rightarrow> string \<Rightarrow> string \<Rightarrow> string \<Rightarrow> string io" where
  "setRemote v w dir remote url = git v w dir [Some ''remote'', Some ''set-url'', Some remote, Some url]"

definition removeGitHubConfigs :: "world \<Rightarrow> string \<Rightarrow> string io" where
  "removeGitHubConfigs w dir = rawGit w dir [''config'', ''--remove-section'', ''http.https://github.com/'']"

definition push :: "git_module \<Rightarrow> world \<Rightarrow> string \<Rightarrow> bool \<Rightarrow> string \<Rightarrow> string io" where
  "push v w dir force branch =
     git v w dir [Some ''push'', Some ''--quiet'', (if force then Some ''--force-with-lease'' else None),
                  Some ''origin'', Some branch]"

section \<open>The orchestrator\<close>

text \<open>
  \<^verbatim>\<open>main.ts\<close>. Logging is left out: it changes nothing the functions return or ask of
  their collaborators. What the functions read of the context is the working directory,
  the repository slug and the installation token.
\<close>

record authenticated_context =
  repoSlug :: string
  repoDir :: string
  accessToken :: string

definition env :: "world \<Rightarrow> string \<Rightarrow> string io" where
  "env w nm =
     (case environ w nm of
        None \<Rightarrow> throw (ClientError (''environment variable '' @ nm @ '' not set!''))
      | Some val \<Rightarrow>
          if val = [] then throw (ClientError (''environment variable '' @ nm @ '' not set!''))
          else pure_io val)"

text \<open>\<^verbatim>\<open>retry\<close>: \<open>retry_loop k\<close> is the \<^verbatim>\<open>for\<close> loop with \<open>k\<close> runs still to go.\<close>

fun retry_loop :: "nat \<Rightarrow> nat \<Rightarrow> bool io \<Rightarrow> bool io \<Rightarrow> bool io" where
  "retry_loop 0 sleep doRetry doFailed = bind_io doFailed (\<lambda>_. pure_io False)"
| "retry_loop (Suc k) sleep doRetry doFailed =
     bind_io (delay sleep)
       (\<lambda>_. bind_io doRetry
          (\<lambda>ok. if ok then pure_io True else retry_loop k sleep doRetry doFailed))"

definition retry :: "nat \<Rightarrow> nat \<Rightarrow> bool io \<Rightarrow> bool io \<Rightarrow> bool io \<Rightarrow> bool io" where
  "retry retries sleep doInitial doRetry doFailed =
     bind_io doInitial
       (\<lambda>ok. if ok then pure_io True else retry_loop retries sleep doRetry doFailed)"

definition getPull :: "world \<Rightarrow> client \<Rightarrow> string \<Rightarrow> string \<Rightarrow> nat \<Rightarrow> pull_request_extended io" where
  "getPull w c owner rp n tr =
     (let res = pulls_get w tr c owner rp n in (res, tr @ [EvPullsGet c owner rp n res]))"

function checkMergeability :: "world \<Rightarrow> 'a pull_request_common_scheme \<Rightarrow> int \<Rightarrow> pull_request_extended io" where
  "checkMergeability w pr retries =
     bind_io (getPull w App (owner_login (repo (base pr))) (name (repo (base pr))) (number pr))
       (\<lambda>pull.
          if mergeable pull = None \<or> mergeable_state pull \<noteq> ''clean'' then
            (if retries > 0 then
               bind_io (delay 2000) (\<lambda>_. checkMergeability w pr (retries - 1))
             else pure_io pull)
          else pure_io pull)"
  by pat_completeness auto
termination
  by (relation "measure (\<lambda>(w, pr, retries). nat retries)") auto

declare checkMergeability.simps [simp del]

definition isMergingIntoRelease :: "'a pull_request_common_scheme \<Rightarrow> bool" where
  "isMergingIntoRelease pr =
     (if ref (base pr) = ''release-ios'' \<or> ref (base pr) = ''release-web'' \<or>
         ref (base pr) = ''release'' \<or> startsWith (ref (base pr)) ''releases/''
      then True else False)"

definition addCommentToPR :: "world \<Rightarrow> 'a pull_request_common_scheme \<Rightarrow> string \<Rightarrow> unit io" where
  "addCommentToPR w pr comment tr =
     (let res = createComment w tr Actions (number pr) (owner_login (repo (base pr)))
                  (name (repo (base pr))) comment
      in (res, tr @ [EvCreateComment Actions (number pr) (owner_login (repo (base pr)))
                       (name (repo (base pr))) comment res]))"

definition gitRemote :: "string \<Rightarrow> string \<Rightarrow> string" where
  "gitRemote token slug = ''https://x-access-token:'' @ token @ ''@github.com/'' @ slug @ ''.git''"

definition setGitRemoteToAppPermission :: "git_module \<Rightarrow> world \<Rightarrow> authenticated_context \<Rightarrow> unit io" where
  "setGitRemoteToAppPermission v w ctx =
     bind_io (setRemote v w (repoDir ctx) ''origin'' (gitRemote (accessToken ctx) (repoSlug ctx)))
       (\<lambda>_. bind_io (removeGitHubConfigs w (repoDir ctx)) (\<lambda>_. pure_io ()))"

text \<open>
  \<^verbatim>\<open>tryMerge\<close>: \<open>mergePR\<close> is the inner function; a response other than 200 and a thrown
  error both give \<^verbatim>\<open>false\<close>.
\<close>

definition mergePR :: "world \<Rightarrow> pull_request_extended \<Rightarrow> merge_method \<Rightarrow> string option \<Rightarrow> bool io" where
  "mergePR w pr mergeMethod commitMessage tr =
     (let res = pulls_merge w tr App (owner_login (repo (base pr))) (name (repo (base pr)))
                  (number pr) commitMessage (sha (head pr)) mergeMethod
      in (Inr (res = Inr 200),
          tr @ [EvPullsMerge App (owner_login (repo (base pr))) (name (repo (base pr)))
                  (number pr) commitMessage (sha (head pr)) mergeMethod res]))"

definition tryMerge :: "world \<Rightarrow> pull_request_extended \<Rightarrow> merge_method \<Rightarrow> string option \<Rightarrow> bool io" where
  "tryMerge w pr mergeMethod commitMessage =
     retry 3 10000 (mergePR w pr mergeMethod commitMessage) (mergePR w pr mergeMethod commitMessage)
       (pure_io False)"

definition statusContext :: string where
  "statusContext = ''Sportsbot: release to master automerge''"

definition rollupDescription :: "pull_request_extended \<Rightarrow> string \<Rightarrow> string" where
  "rollupDescription pr mergeMsg =
     ''This is a PR into a `release` branch. All work merged directly into a `release` '' @
     ''branch MUST also make its way back into `master`. I tried to merge into `master` for you, '' @
     ''but it appears it cannot be merged cleanly. Git output:'' @ [CHR 0x0A, CHR 0x0A] @ ''```'' @
     mergeMsg @
     [CHR 0x0A] @ ''```'' @ [CHR 0x0A, CHR 0x0A] @
     ''The best way to fix this is to make a separate PR into `master` like this:'' @
     [CHR 0x0A, CHR 0x0A] @ ''```'' @ [CHR 0x0A] @
     ''git checkout master && git pull && git checkout -b feature/fix-pr-'' @ show_nat (number pr) @
     [CHR 0x0A] @
     ''git fetch origin && git merge origin/'' @ ref (base pr) @
     [CHR 0x0A] @ ''```'' @ [CHR 0x0A, CHR 0x0A] @
     ''Fix any merge conflicts that appear (if any), then...'' @
     [CHR 0x0A, CHR 0x0A] @ ''```'' @ [CHR 0x0A] @
     ''git merge origin/'' @ ref (head pr) @
     [CHR 0x0A] @ ''```'' @ [CHR 0x0A, CHR 0x0A] @
     ''Fix any other merge conflicts that appear (if any), then...'' @
     [CHR 0x0A, CHR 0x0A] @ ''```'' @ [CHR 0x0A] @
     ''git push -u origin feature/fix-pr-'' @ show_nat (number pr) @
     [CHR 0x0A] @ ''```'' @ [CHR 0x0A, CHR 0x0A] @
     ''...and then make a PR into `master` in GitHub. This new PR must be merged using '' @
     ''Automerger, otherwise use '' @ [CHR 0x22] @ ''Merge pull request'' @ [CHR 0x22] @ '' and NOT '' @
     [CHR 0x22] @ ''Squash and merge'' @ [CHR 0x22] @ ''.  '' @
     ''If you want me to stop spamming this message, remove the Automerge label.''"

definition listStatuses :: "world \<Rightarrow> pull_request_extended \<Rightarrow> commit_status list io" where
  "listStatuses w pr tr =
     (let res = listStatusesForRef w tr Actions (sha (head pr)) (owner_login (repo (base pr)))
                  (name (repo (base pr)))
      in (res, tr @ [EvListStatuses Actions (sha (head pr)) (owner_login (repo (base pr)))
                       (name (repo (base pr))) res]))"

definition postFailure :: "world \<Rightarrow> pull_request_extended \<Rightarrow> string \<Rightarrow> unit io" where
  "postFailure w pr desc tr =
     (let res = createStatus w tr Actions (sha (head pr)) (owner_login (repo (base pr)))
                  (name (repo (base pr))) ''failure'' desc statusContext
      in (res, tr @ [EvCreateStatus Actions (sha (head pr)) (owner_login (repo (base pr)))
                       (name (repo (base pr))) ''failure'' desc statusContext res]))"

text \<open>The value of \<^verbatim>\<open>needsComment\<close> after the statuses have been inspected.\<close>

definition needsComment :: "commit_status list \<Rightarrow> bool" where
  "needsComment existing =
     (let myStatuses = filter (\<lambda>s. status_context s = statusContext) existing in
      if length myStatuses > 1 then
        (case myStatuses of
           s # _ \<Rightarrow> if status_state s = ''failure'' \<or> status_state s = ''error'' then False else True
         | [] \<Rightarrow> True)
      else True)"

definition checkRollupToMaster :: "git_module \<Rightarrow> world \<Rightarrow> pull_request_extended \<Rightarrow> bool io" where
  "checkRollupToMaster v w pr =
     bind_io (env w ''GITHUB_WORKSPACE'')
       (\<lambda>dir. bind_io (canMergeCleanly v w dir ''master'' (ref (head pr)))
          (\<lambda>mergeMsg. bind_io (listStatuses w pr)
             (\<lambda>existing. case mergeMsg of
                None \<Rightarrow> pure_io True
              | Some msg \<Rightarrow>
                  bind_io (if needsComment existing
                           then addCommentToPR w pr (rollupDescription pr msg) else pure_io ())
                    (\<lambda>_. bind_io (postFailure w pr (rollupDescription pr msg))
                       (\<lambda>_. pure_io False)))))"

text \<open>The first statement of \<^verbatim>\<open>automerge\<close>: the merge method and the commit title.\<close>

definition mergeMethodAndTitle :: "pull_request_extended \<Rightarrow> merge_method \<times> string option" where
  "mergeMethodAndTitle pr =
     (if ref (base pr) = ''master'' \<and> \<not> startsWith (ref (head pr)) ''feature/fix-pr-''
      then (Squash, Some (title pr @ '' (#'' @ show_nat (number pr) @ '')''))
      else (Merge, None))"

definition automerge :: "git_module \<Rightarrow> world \<Rightarrow> authenticated_context \<Rightarrow> pull_request_extended \<Rightarrow> unit io" where
  "automerge v w ctx pr =
     (case mergeMethodAndTitle pr of (mergeMethod, ttl) \<Rightarrow>
        if isMergingIntoRelease pr then
          bind_io (setGitRemoteToAppPermission v w ctx)
            (\<lambda>_. bind_io (checkRollupToMaster v w pr)
               (\<lambda>canMerge.
                  if \<not> canMerge then pure_io ()
                  else bind_io (env w ''GITHUB_WORKSPACE'')
                    (\<lambda>dir. bind_io (merge v w dir ''master'' (ref (head pr)) None)
                       (\<lambda>mergeMsg.
                          if mergeMsg \<noteq> None then throw (Thrown ''Merge to master failed'')
                          else bind_io (push v w dir False ''master'')
                            (\<lambda>_. bind_io (tryMerge w pr mergeMethod ttl)
                               (\<lambda>mergeOK. if \<not> mergeOK then throw (Thrown ''Merge failed'')
                                           else pure_io ()))))))
        else
          bind_io (tryMerge w pr mergeMethod ttl)
            (\<lambda>mergeOK. if \<not> mergeOK then throw (Thrown ''Merge failed'') else pure_io ()))"

definition processPR :: "git_module \<Rightarrow> world \<Rightarrow> authenticated_context \<Rightarrow> pull_request_extended \<Rightarrow> unit io" where
  "processPR v w ctx pr =
     (if mergeable_state pr \<noteq> ''clean'' \<and> mergeable_state pr \<noteq> ''unstable'' then throw NoError
      else if ''Automerge'' \<notin> set (labels pr) then throw NoError
      else if ref (base pr) \<noteq> ''master'' \<and> \<not> isMergingIntoRelease pr then throw NoError
      else automerge v w ctx pr)"

section \<open>The earlier orchestrator\<close>

text \<open>
  The repository also holds an earlier state of \<^verbatim>\<open>main.ts\<close>. Its functions are given the
  suffix \<open>0\<close>. It differs from the current one in five places that matter here: only
  \<^verbatim>\<open>clean\<close> is accepted as mergeability state; \<^verbatim>\<open>release\<close> is not a release branch; every
  pull request into \<^verbatim>\<open>master\<close> is squashed; the token for the remote is obtained inside
  \<^verbatim>\<open>setGitRemoteToAppPermission\<close>; and \<^verbatim>\<open>automerge\<close> merges the pull request before it
  merges into \<^verbatim>\<open>master\<close>.
\<close>

definition isMergingIntoRelease0 :: "'a pull_request_common_scheme \<Rightarrow> bool" where
  "isMergingIntoRelease0 pr =
     (if ref (base pr) = ''release-ios'' \<or> ref (base pr) = ''release-web'' \<or>
         startsWith (ref (base pr)) ''releases/''
      then True else False)"

definition input :: "world \<Rightarrow> string \<Rightarrow> string io" where
  "input w nm tr = (getInput w nm, tr)"

definition newAppToken :: "world \<Rightarrow> string io" where
  "newAppToken w tr = (let res = appToken w tr in (res, tr @ [EvAppToken res]))"

text \<open>
  \<open>newAppToken\<close> stands for signing the assertion and the two requests that exchange it
  for an installation token.
\<close>

definition setGitRemoteToAppPermission0 :: "git_module \<Rightarrow> world \<Rightarrow> unit io" where
  "setGitRemoteToAppPermission0 v w =
     bind_io (input w ''appId'')
       (\<lambda>appId. bind_io (input w ''appKey'')
          (\<lambda>appKey. bind_io (env w ''GITHUB_REPOSITORY'')
             (\<lambda>slug. bind_io (env w ''GITHUB_WORKSPACE'')
                (\<lambda>dir. bind_io (newAppToken w)
                   (\<lambda>token. bind_io (setRemote v w dir ''origin'' (gitRemote token slug))
                      (\<lambda>_. pure_io ()))))))"

definition mergePR0 :: "world \<Rightarrow> pull_request_extended \<Rightarrow> merge_method \<Rightarrow> string option \<Rightarrow> bool io" where
  "mergePR0 w pr mergeMethod commitMessage tr =
     (let res = pulls_merge w tr Actions (owner_login (repo (head pr))) (name (repo (head pr)))
                  (number pr) commitMessage (sha (head pr)) mergeMethod
      in (Inr (res = Inr 200),
          tr @ [EvPullsMerge Actions (owner_login (repo (head pr))) (name (repo (head pr)))
                  (number pr) commitMessage (sha (head pr)) mergeMethod res]))"

definition tryMerge0 :: "world \<Rightarrow> pull_request_extended \<Rightarrow> merge_method \<Rightarrow> string option \<Rightarrow> bool io" where
  "tryMerge0 w pr mergeMethod commitMessage =
     retry 3 10000 (mergePR0 w pr mergeMethod commitMessage) (mergePR0 w pr mergeMethod commitMessage)
       (pure_io False)"

text \<open>
  The earlier \<^verbatim>\<open>automerge\<close> calls \<^verbatim>\<open>tryMerge\<close> without \<^verbatim>\<open>await\<close>. The call runs up to its
  first suspension, which is the merge request of the first attempt, and hands back a
  promise; a promise is truthy, so \<^verbatim>\<open>"Merge failed"\<close> is never thrown there. What the
  promise does later (the retries) overlaps with the git commands that follow and is not
  part of the model: \<open>tryMerge0_started\<close> is the request of the first attempt alone.
\<close>

definition tryMerge0_started :: "world \<Rightarrow> pull_request_extended \<Rightarrow> merge_method \<Rightarrow> string option \<Rightarrow> unit io" where
  "tryMerge0_started w pr mergeMethod commitMessage =
     bind_io (mergePR0 w pr mergeMethod commitMessage) (\<lambda>_. pure_io ())"

definition rollupDescription0 :: "string \<Rightarrow> string" where
  "rollupDescription0 mergeMsg =
     ''Cannot merge into `master`. Git output:'' @ [CHR 0x0A, CHR 0x0A] @ ''```'' @ mergeMsg @ ''```''"

definition checkRollupToMaster0 :: "git_module \<Rightarrow> world \<Rightarrow> pull_request_extended \<Rightarrow> bool io" where
  "checkRollupToMaster0 v w pr =
     bind_io (env w ''GITHUB_WORKSPACE'')
       (\<lambda>dir. bind_io (canMergeCleanly v w dir ''master'' (ref (head pr)))
          (\<lambda>mergeMsg. bind_io (listStatuses w pr)
             (\<lambda>existing. case mergeMsg of
                None \<Rightarrow> pure_io True
              | Some msg \<Rightarrow>
                  bind_io (if needsComment existing
                           then addCommentToPR w pr (rollupDescription0 msg) else pure_io ())
                    (\<lambda>_. bind_io (postFailure w pr (rollupDescription0 msg))
                       (\<lambda>_. pure_io False)))))"

definition automerge0 :: "git_module \<Rightarrow> world \<Rightarrow> pull_request_extended \<Rightarrow> unit io" where
  "automerge0 v w pr =
     (case (if ref (base pr) = ''master''
            then (Squash, Some (title pr @ '' (#'' @ show_nat (number pr) @ '')''))
            else (Merge, None)) of (mergeMethod, ttl) \<Rightarrow>
        if isMergingIntoRelease0 pr then
          bind_io (setGitRemoteToAppPermission0 v w)
            (\<lambda>_. bind_io (checkRollupToMaster0 v w pr)
               (\<lambda>canMerge.
                  if \<not> canMerge then pure_io ()
                  else bind_io (tryMerge0_started w pr mergeMethod ttl)
                    (\<lambda>_. bind_io (env w ''GITHUB_WORKSPACE'')
                       (\<lambda>dir. bind_io (merge v w dir ''master'' (ref (head pr)) None)
                          (\<lambda>mergeMsg. bind_io (push v w dir False ''master'')
                             (\<lambda>_. pure_io ()))))))
        else tryMerge0_started w pr mergeMethod ttl)"

definition processPR0 :: "git_module \<Rightarrow> world \<Rightarrow> pull_request_extended \<Rightarrow> unit io" where
  "processPR0 v w pr =
     (if mergeable_state pr \<noteq> ''clean'' then throw NoError
      else if ''Automerge'' \<notin> set (labels pr) then throw NoError
      else if ref (base pr) \<noteq> ''master'' \<and> \<not> isMergingIntoRelease0 pr then throw NoError
      else automerge0 v w pr)"

section \<open>Scenarios\<close>

text \<open>
  Concrete pull requests and worlds on which the functions are run. In the world \<open>calm\<close>
  every command exits with status 0 and no output, every request succeeds, no status
  exists yet, and the clock shows the number of interactions so far.
\<close>

definition sampleRepo :: repo_common where
  "sampleRepo = \<lparr>repo_id = 1, name = ''app'', full_name = ''acme/app'', owner_login = ''acme''\<rparr>"

definition releasePR :: pull_request_extended where
  "releasePR =
     \<lparr>number = 7,
      head = \<lparr>ref = ''hotfix'', sha = ''abc123'', user_login = ''dev'', repo = sampleRepo\<rparr>,
      base = \<lparr>ref = ''releases/2024-01'', sha = ''def456'', user_login = ''acme'', repo = sampleRepo\<rparr>,
      title = ''Fix crash'', merge_commit_sha = None, labels = [''Automerge''],
      mergeable = Some True, mergeable_state = ''clean''\<rparr>"

definition sampleContext :: authenticated_context where
  "sampleContext = \<lparr>repoSlug = ''acme/app'', repoDir = ''/work'', accessToken = ''t0ken''\<rparr>"

definition calm :: world where
  "calm =
     \<lparr>spawn = (\<lambda>tr cwd argv. Exited (Some 0) []),
      getTime = (\<lambda>tr. length tr),
      environ = (\<lambda>nm. Some ''/work''),
      getInput = (\<lambda>nm. Inr ''secret''),
      pulls_get = (\<lambda>tr c owner rp n. Inr releasePR),
      pulls_merge = (\<lambda>tr c owner rp n msg s m. Inr 200),
      listStatusesForRef = (\<lambda>tr c r owner rp. Inr []),
      createComment = (\<lambda>tr c n owner rp body. Inr ()),
      createStatus = (\<lambda>tr c s owner rp st desc ctx. Inr ()),
      appToken = (\<lambda>tr. Inr ''t0ken'')\<rparr>"

text \<open>A world in which every command ends the same way.\<close>

definition allCommands :: "proc_outcome \<Rightarrow> world" where
  "allCommands out = calm\<lparr>spawn := (\<lambda>tr cwd argv. out)\<rparr>"

text \<open>A world in which the commands whose arguments satisfy \<open>P\<close> end with \<open>out\<close>.\<close>

definition commandsWhere :: "(string list \<Rightarrow> bool) \<Rightarrow> proc_outcome \<Rightarrow> world" where
  "commandsWhere P out = calm\<lparr>spawn := (\<lambda>tr cwd argv. if P argv then out else Exited (Some 0) [])\<rparr>"

text \<open>The exploratory merge of \<^verbatim>\<open>canMergeCleanly\<close>, recognised by its arguments.\<close>

definition exploratoryMerge :: "string list \<Rightarrow> bool" where
  "exploratoryMerge argv = (''merge'' \<in> set argv \<and> ''--no-commit'' \<in> set argv)"

section \<open>Vocabulary for statements about interactions\<close>

text \<open>
  \<open>emits m P\<close>: whatever \<open>m\<close> returns, it only appends interactions to the log, and each
  of them satisfies \<open>P\<close>.
\<close>

definition emits :: "'a io \<Rightarrow> (event \<Rightarrow> bool) \<Rightarrow> bool" where
  "emits m P = (\<forall>tr r tr'. m tr = (r, tr') \<longrightarrow> (\<exists>evs. tr' = tr @ evs \<and> list_all P evs))"

fun isSpawn :: "event \<Rightarrow> bool" where
  "isSpawn (EvSpawn cwd argv out) = True"
| "isSpawn ev = False"

fun isPullsMerge :: "event \<Rightarrow> bool" where
  "isPullsMerge (EvPullsMerge c owner rp n msg s m res) = True"
| "isPullsMerge ev = False"

text \<open>A merge request for pull request \<open>pr\<close> with the given method and commit message.\<close>

fun mergesWith :: "pull_request_extended \<Rightarrow> merge_method \<times> string option \<Rightarrow> event \<Rightarrow> bool" where
  "mergesWith pr mt (EvPullsMerge c owner rp n msg s m res) =
     (n = number pr \<and> s = sha (head pr) \<and> (m, msg) = mt)"
| "mergesWith pr mt ev = False"

text \<open>A pull request that is not mergeable yet, and one into \<^verbatim>\<open>master\<close>.\<close>

definition dirtyPR :: pull_request_extended where
  "dirtyPR = releasePR\<lparr>mergeable_state := ''dirty''\<rparr>"

definition masterPR :: "string \<Rightarrow> pull_request_extended" where
  "masterPR headRef =
     releasePR\<lparr>head := (head releasePR)\<lparr>ref := headRef\<rparr>, base := (base releasePR)\<lparr>ref := ''master''\<rparr>\<rparr>"

definition developPR :: pull_request_extended where
  "developPR = releasePR\<lparr>base := (base releasePR)\<lparr>ref := ''develop''\<rparr>\<rparr>"

text \<open>A merge request that the platform answered with status 200.\<close>

fun accepted :: "event \<Rightarrow> bool" where
  "accepted (EvPullsMerge c owner rp n msg s m res) = (res = Inr 200)"
| "accepted ev = False"

text \<open>
  \<open>attemptsShape sleep k b evs\<close>: the log \<open>evs\<close> is a run of merge requests separated by
  delays of \<open>sleep\<close> milliseconds, in which only the last request can be an accepted one,
  a request that was not accepted is followed by another one as long as fewer than \<open>k\<close>
  retries were made, and \<open>b\<close> tells whether the last request was accepted.
\<close>

fun attemptsShape :: "nat \<Rightarrow> nat \<Rightarrow> bool \<Rightarrow> trace \<Rightarrow> bool" where
  "attemptsShape sleep k b [] = False"
| "attemptsShape sleep k b [ev] = (isPullsMerge ev \<and> (if accepted ev then b else k = 0 \<and> \<not> b))"
| "attemptsShape sleep k b (ev # d # rest) =
     (isPullsMerge ev \<and> \<not> accepted ev \<and> d = EvDelay sleep \<and> 0 < k \<and> attemptsShape sleep (k - 1) b rest)"

text \<open>
  Worlds for the merge endpoint: one that always answers 405, and one that answers 200
  to the request number \<open>n\<close> (counting from 1) and 405 to the others.
\<close>

definition mergeRefused :: world where
  "mergeRefused = calm\<lparr>pulls_merge := (\<lambda>tr c owner rp n msg s m. Inr 405)\<rparr>"

definition mergeAcceptedAt :: "nat \<Rightarrow> world" where
  "mergeAcceptedAt k =
     calm\<lparr>pulls_merge := (\<lambda>tr c owner rp n msg s m.
             if Suc (length (filter isPullsMerge tr)) = k then Inr 200 else Inr 405)\<rparr>"

text \<open>The condition under which \<^verbatim>\<open>checkMergeability\<close> asks again.\<close>

definition undecided :: "pull_request_extended \<Rightarrow> bool" where
  "undecided pull = (mergeable pull = None \<or> mergeable_state pull \<noteq> ''clean'')"

fun isPullsGet :: "event \<Rightarrow> bool" where
  "isPullsGet (EvPullsGet c owner rp n res) = True"
| "isPullsGet ev = False"

text \<open>
  \<open>pollShape n r evs\<close>: the log \<open>evs\<close> is a run of reads of the pull request separated
  by delays of 2000 ms; a read is followed by another one exactly when it delivered an
  undecided pull request and retries are left, counting down from \<open>n\<close>; and \<open>r\<close> is
  what the last read delivered.
\<close>

fun pollShape :: "int \<Rightarrow> failure + pull_request_extended \<Rightarrow> trace \<Rightarrow> bool" where
  "pollShape n r [] = False"
| "pollShape n r [ev] =
     (case ev of
        EvPullsGet c owner rp num res \<Rightarrow>
          r = res \<and> (case res of Inl e \<Rightarrow> True | Inr pull \<Rightarrow> \<not> (undecided pull \<and> 0 < n))
      | _ \<Rightarrow> False)"
| "pollShape n r (ev # d # rest) =
     (case ev of
        EvPullsGet c owner rp num res \<Rightarrow>
          (case res of
             Inl e \<Rightarrow> False
           | Inr pull \<Rightarrow> undecided pull \<and> 0 < n \<and> d = EvDelay 2000 \<and> pollShape (n - 1) r rest)
      | _ \<Rightarrow> False)"

text \<open>
  A pull request whose mergeability the platform has not computed yet, and a world in
  which successive reads of the pull request deliver the members of a list, the last
  one for ever.
\<close>

definition unknownPR :: pull_request_extended where
  "unknownPR = releasePR\<lparr>mergeable := None, mergeable_state := ''unknown''\<rparr>"

definition verdicts :: "pull_request_extended list \<Rightarrow> world" where
  "verdicts vs =
     calm\<lparr>pulls_get := (\<lambda>tr c owner rp n.
             Inr (vs ! min (length (filter isPullsGet tr)) (length vs - 1)))\<rparr>"

fun isCreateStatus :: "event \<Rightarrow> bool" where
  "isCreateStatus (EvCreateStatus c s owner rp st desc ctx res) = True"
| "isCreateStatus ev = False"

fun isCreateComment :: "event \<Rightarrow> bool" where
  "isCreateComment (EvCreateComment c n owner rp body res) = True"
| "isCreateComment ev = False"

text \<open>
  A platform that remembers: the statuses of a commit are those created for it so far,
  the most recent first, as the platform lists them. In \<open>conflicting\<close> the exploratory
  merge into \<^verbatim>\<open>master\<close> ends in a conflict each time.
\<close>

fun statusesIn :: "trace \<Rightarrow> string \<Rightarrow> commit_status list" where
  "statusesIn [] s = []"
| "statusesIn (EvCreateStatus c s' owner rp st desc ctx res # evs) s =
     (if s' = s \<and> res = Inr () then statusesIn evs s @ [\<lparr>status_context = ctx, status_state = st\<rparr>]
      else statusesIn evs s)"
| "statusesIn (ev # evs) s = statusesIn evs s"

definition conflictOutput :: string where
  "conflictOutput = ''CONFLICT (content): Merge conflict in app.js''"

definition conflicting :: world where
  "conflicting =
     (commandsWhere exploratoryMerge (Exited (Some 1) conflictOutput))
       \<lparr>listStatusesForRef := (\<lambda>tr c r owner rp. Inr (statusesIn tr r))\<rparr>"

text \<open>Three rollup checks of the same pull request in a row, each starting where the last one ended.\<close>

definition firstCheck :: "(failure + bool) \<times> trace" where
  "firstCheck = checkRollupToMaster GitJs conflicting releasePR []"

definition secondCheck :: "(failure + bool) \<times> trace" where
  "secondCheck = checkRollupToMaster GitJs conflicting releasePR (snd firstCheck)"

definition thirdCheck :: "(failure + bool) \<times> trace" where
  "thirdCheck = checkRollupToMaster GitJs conflicting releasePR (snd secondCheck)"

text \<open>
  What one rollup check of \<open>releasePR\<close> adds to the log in the world \<open>conflicting\<close> when
  the platform lists the statuses \<open>sts\<close>: \<open>commented\<close> tells whether the comment is part
  of it.
\<close>

definition conflictRun :: "commit_status list \<Rightarrow> bool \<Rightarrow> trace" where
  "conflictRun sts commented =
     [EvSpawn ''/work'' (COMMON_ARGS @ [''checkout'', ''master'']) (Exited (Some 0) []),
      EvSpawn ''/work'' (COMMON_ARGS @ [''pull'', ''--quiet'', ''--no-commit'']) (Exited (Some 0) []),
      EvSpawn ''/work'' (COMMON_ARGS @ [''fetch'', ''--quiet'', ''origin'', ''hotfix:refs/remotes/origin/hotfix''])
        (Exited (Some 0) []),
      EvSpawn ''/work'' (COMMON_ARGS @ [''merge'', ''--quiet'', ''--no-commit'', ''refs/remotes/origin/hotfix''])
        (Exited (Some 1) conflictOutput),
      EvSpawn ''/work'' (COMMON_ARGS @ [''merge'', ''--abort'']) (Exited (Some 0) []),
      EvListStatuses Actions ''abc123'' ''acme'' ''app'' (Inr sts)] @
     (if commented
      then [EvCreateComment Actions 7 ''acme'' ''app'' (rollupDescription releasePR conflictOutput) (Inr ())]
      else []) @
     [EvCreateStatus Actions ''abc123'' ''acme'' ''app'' ''failure''
        (rollupDescription releasePR conflictOutput) statusContext (Inr ())]"

definition failureStatus :: commit_status where
  "failureStatus = \<lparr>status_context = statusContext, status_state = ''failure''\<rparr>"

text \<open>
  The steps of the rollup, recognised in the log: the merge of the head branch into
  \<^verbatim>\<open>master\<close> done by \<^verbatim>\<open>merge\<close> (called without a message), the push of \<^verbatim>\<open>master\<close>, and how
  a command ended.
\<close>

fun isForwardMerge :: "git_module \<Rightarrow> string \<Rightarrow> event \<Rightarrow> bool" where
  "isForwardMerge v br (EvSpawn cwd argv out) =
     (argv = COMMON_ARGS @ [''merge'', ''--quiet'', ''--no-edit'', mergeRef v br])"
| "isForwardMerge v br ev = False"

fun isPushMaster :: "event \<Rightarrow> bool" where
  "isPushMaster (EvSpawn cwd argv out) = (argv = COMMON_ARGS @ [''push'', ''--quiet'', ''origin'', ''master''])"
| "isPushMaster ev = False"

fun exitedWith0 :: "event \<Rightarrow> bool" where
  "exitedWith0 (EvSpawn cwd argv (Exited code out)) = (code = Some 0)"
| "exitedWith0 ev = False"

fun exitedOtherwise :: "event \<Rightarrow> bool" where
  "exitedOtherwise (EvSpawn cwd argv (Exited code out)) = (code \<noteq> Some 0)"
| "exitedOtherwise ev = False"

fun notStarted :: "event \<Rightarrow> bool" where
  "notStarted (EvSpawn cwd argv SpawnFailed) = True"
| "notStarted ev = False"

text \<open>
  \<open>orderedMerge v br merged pushed evs\<close>: in the log \<open>evs\<close> every merge request for a pull
  request comes after a merge of branch \<open>br\<close> into \<^verbatim>\<open>master\<close> that exited with status 0 and,
  after that, a push of \<^verbatim>\<open>master\<close> that exited with status 0. The flags tell whether these
  two have already happened before \<open>evs\<close>.
\<close>

fun orderedMerge :: "git_module \<Rightarrow> string \<Rightarrow> bool \<Rightarrow> bool \<Rightarrow> trace \<Rightarrow> bool" where
  "orderedMerge v br merged pushed [] = True"
| "orderedMerge v br merged pushed (ev # evs) =
     (if isPullsMerge ev then merged \<and> pushed \<and> orderedMerge v br merged pushed evs
      else orderedMerge v br (merged \<or> (isForwardMerge v br ev \<and> exitedWith0 ev))
             (pushed \<or> (merged \<and> isPushMaster ev \<and> exitedWith0 ev)) evs)"

text \<open>
  An interaction that is neither a merge request nor the forward merge of branch \<open>br\<close>.
\<close>

definition quiet :: "git_module \<Rightarrow> string \<Rightarrow> event \<Rightarrow> bool" where
  "quiet v br ev = (\<not> isPullsMerge ev \<and> \<not> isForwardMerge v br ev)"

text \<open>The arguments of the forward merge, for worlds in which it ends in a particular way.\<close>

definition forwardMergeArgs :: "string list \<Rightarrow> bool" where
  "forwardMergeArgs argv = (''merge'' \<in> set argv \<and> ''--no-edit'' \<in> set argv)"









section \<open>Composition of computations\<close>

lemma bind_io_cases:
  "bind_io m f tr = (r, tr') \<Longrightarrow>
     (\<exists>e. m tr = (Inl e, tr') \<and> r = Inl e) \<or> (\<exists>x tr1. m tr = (Inr x, tr1) \<and> f x tr1 = (r, tr'))"
  by (auto simp: bind_io_def split: prod.splits sum.splits)


lemma bind_io_Inl: "m tr = (Inl e, tr1) \<Longrightarrow> bind_io m f tr = (Inl e, tr1)"
  by (simp add: bind_io_def)

lemma catch_io_Inr: "m tr = (Inr x, tr1) \<Longrightarrow> catch_io m h tr = (Inr x, tr1)"
  by (simp add: catch_io_def)

lemma catch_io_Inl: "m tr = (Inl e, tr1) \<Longrightarrow> catch_io m h tr = h e tr1"
  by (simp add: catch_io_def)

section \<open>Facts about the git module\<close>

lemma git_spawned:
  "git v w cwd args tr = (r, tr') \<Longrightarrow>
     tr' = tr @ [EvSpawn cwd (COMMON_ARGS @ nonNull args) (spawn w tr cwd (COMMON_ARGS @ nonNull args))]"
  by (auto simp: git_def rawGit_def run_git_def Let_def split: git_module.splits proc_outcome.splits if_splits)

lemma git_Inr:
  "git v w cwd args tr = (Inr out, tr') \<longleftrightarrow>
     spawn w tr cwd (COMMON_ARGS @ nonNull args) = Exited (Some 0) out \<and>
     tr' = tr @ [EvSpawn cwd (COMMON_ARGS @ nonNull args) (Exited (Some 0) out)]"
  by (auto simp: git_def rawGit_def run_git_def Let_def split: git_module.splits proc_outcome.splits if_splits)

lemma git_Inl:
  "git v w cwd args tr = (Inl e, tr') \<Longrightarrow>
     (spawn w tr cwd (COMMON_ARGS @ nonNull args) = SpawnFailed \<and> \<not> isExitError e) \<or>
     (\<exists>m code out. spawn w tr cwd (COMMON_ARGS @ nonNull args) = Exited code out \<and> code \<noteq> Some 0 \<and>
        e = ExitError m code (Some out))"
  by (auto simp: git_def rawGit_def run_git_def Let_def split: git_module.splits proc_outcome.splits if_splits)

lemma abortMerge_eq:
  "abortMerge v w dir tr =
     (case git v w dir [Some ''merge'', Some ''--abort''] tr of
        (Inr x, tr') \<Rightarrow> (Inr (), tr')
      | (Inl e, tr') \<Rightarrow>
          (case e of ExitError m code out \<Rightarrow> if code = Some 128 then (Inr (), tr') else (Inl e, tr')
           | _ \<Rightarrow> (Inl e, tr')))"
  by (auto simp: abortMerge_def catch_io_def bind_io_def pure_io_def throw_def
      split: prod.splits sum.splits failure.splits)

lemmas git_eval = git_def rawGit_def run_git_def nonNull_def asShown_def command_def show_code_def
  COMMON_ARGS_def Let_def show_nat.simps digit_def

text \<open>
  Claim C9. \<^verbatim>\<open>abortMerge\<close> tolerates the failure that means "no merge in progress": when
  \<^verbatim>\<open>git merge --abort\<close> exits with status 128 the error is swallowed and \<^verbatim>\<open>abortMerge\<close>
  returns normally; every other failure of the command (another exit status, or the
  command cannot be started) is thrown again unchanged; and when the command succeeds so
  does \<^verbatim>\<open>abortMerge\<close>.
\<close>

theorem abortMerge_swallows_128:
  "(spawn w tr dir (COMMON_ARGS @ [''merge'', ''--abort'']) = Exited (Some 128) out \<longrightarrow>
      abortMerge v w dir tr =
        (Inr (), tr @ [EvSpawn dir (COMMON_ARGS @ [''merge'', ''--abort'']) (Exited (Some 128) out)])) \<and>
   (git v w dir [Some ''merge'', Some ''--abort''] tr = (Inl e, tr') \<and>
      (\<forall>m out'. e \<noteq> ExitError m (Some 128) out') \<longrightarrow>
      abortMerge v w dir tr = (Inl e, tr')) \<and>
   (git v w dir [Some ''merge'', Some ''--abort''] tr = (Inr x, tr') \<longrightarrow>
      abortMerge v w dir tr = (Inr (), tr'))"
proof (intro conjI impI)
  assume "spawn w tr dir (COMMON_ARGS @ [''merge'', ''--abort'']) = Exited (Some 128) out"
  then show "abortMerge v w dir tr =
        (Inr (), tr @ [EvSpawn dir (COMMON_ARGS @ [''merge'', ''--abort'']) (Exited (Some 128) out)])"
    by (simp add: abortMerge_eq git_def rawGit_def run_git_def nonNull_def split: git_module.splits)
next
  assume "git v w dir [Some ''merge'', Some ''--abort''] tr = (Inl e, tr') \<and>
      (\<forall>m out'. e \<noteq> ExitError m (Some 128) out')"
  then show "abortMerge v w dir tr = (Inl e, tr')"
    by (auto simp: abortMerge_eq split: failure.splits)
next
  assume "git v w dir [Some ''merge'', Some ''--abort''] tr = (Inr x, tr')"
  then show "abortMerge v w dir tr = (Inr (), tr')"
    by (simp add: abortMerge_eq)
qed

theorem abortMerge_swallows_128_witness:
  "fst (abortMerge GitTs (allCommands (Exited (Some 128) ''fatal: There is no merge to abort'')) ''/work'' []) = Inr () \<and>
   fst (abortMerge GitTs (allCommands (Exited (Some 1) ''error'')) ''/work'' []) =
     Inl (ExitError ''command failed with code 1: git merge --abort'' (Some 1) (Some ''error'')) \<and>
   fst (abortMerge GitTs (allCommands SpawnFailed) ''/work'' []) =
     Inl (Error ''command failed: git merge --abort'') \<and>
   fst (abortMerge GitTs calm ''/work'' []) = Inr ()"
proof -
  let ?argv = "COMMON_ARGS @ [''merge'', ''--abort'']"
  have a: "fst (abortMerge GitTs (allCommands (Exited (Some 128) ''fatal: There is no merge to abort'')) ''/work'' []) = Inr ()"
    using abortMerge_swallows_128 [of "allCommands (Exited (Some 128) ''fatal: There is no merge to abort'')"
        "[]" "''/work''" "''fatal: There is no merge to abort''" GitTs]
    by (simp add: allCommands_def calm_def)
  have b: "fst (abortMerge GitTs (allCommands (Exited (Some 1) ''error'')) ''/work'' []) =
     Inl (ExitError ''command failed with code 1: git merge --abort'' (Some 1) (Some ''error''))"
    using abortMerge_swallows_128 [of "allCommands (Exited (Some 1) ''error'')" "[]" "''/work''" _ GitTs
        "ExitError ''command failed with code 1: git merge --abort'' (Some 1) (Some ''error'')"
        "[EvSpawn ''/work'' ?argv (Exited (Some 1) ''error'')]"]
    by (simp add: allCommands_def calm_def git_eval)
  have c: "fst (abortMerge GitTs (allCommands SpawnFailed) ''/work'' []) =
     Inl (Error ''command failed: git merge --abort'')"
    using abortMerge_swallows_128 [of "allCommands SpawnFailed" "[]" "''/work''" _ GitTs
        "Error ''command failed: git merge --abort''"
        "[EvSpawn ''/work'' ?argv SpawnFailed]"]
    by (simp add: allCommands_def calm_def git_eval)
  have d: "fst (abortMerge GitTs calm ''/work'' []) = Inr ()"
    using abortMerge_swallows_128 [of calm "[]" "''/work''" _ GitTs _
        "[EvSpawn ''/work'' ?argv (Exited (Some 0) [])]" "[]"]
    by (simp add: calm_def git_eval)
  from a b c d show ?thesis by simp
qed

lemma mergeBase_two:
  "mergeBase v w dir (a # b # rest) tr =
     (case mergeBase_loop v w dir a (b # rest) tr of
        (Inr c, tr') \<Rightarrow> (Inr (Some c), tr')
      | (Inl e, tr') \<Rightarrow>
          (case e of ExitError m code out \<Rightarrow> if code = Some 1 then (Inr None, tr') else (Inl e, tr')
           | _ \<Rightarrow> (Inl e, tr')))"
  by (auto simp: mergeBase_def catch_io_def bind_io_def pure_io_def throw_def
      split: prod.splits sum.splits failure.splits)

text \<open>
  Claim C8. \<^verbatim>\<open>mergeBase\<close> given exactly one reference returns it and runs no command;
  given no reference it throws the error \<^verbatim>\<open>empty refs!\<close>, again without running a command.
  With two or more references: if the loop of \<^verbatim>\<open>git merge-base\<close> calls fails, the result is
  \<^verbatim>\<open>null\<close> exactly when the failure is an exit with status 1, and the failure itself
  otherwise. For the first call this is spelled out in terms of how the process ends:
  status 1 gives \<^verbatim>\<open>null\<close>, another non-zero status (or a kill by signal) gives the
  \<^verbatim>\<open>ExitError\<close>, a process that cannot be started gives the plain \<^verbatim>\<open>Error\<close>.
\<close>

theorem mergeBase_edge_cases:
  "mergeBase v w dir [r] tr = (Inr (Some r), tr) \<and>
   mergeBase v w dir [] tr = (Inl (Error ''empty refs!''), tr) \<and>
   (mergeBase_loop v w dir a (b # rest) tr = (Inl e, tr') \<longrightarrow>
      mergeBase v w dir (a # b # rest) tr =
        (if \<exists>m out. e = ExitError m (Some 1) out then (Inr None, tr') else (Inl e, tr'))) \<and>
   (spawn w tr dir (COMMON_ARGS @ [''merge-base'', a, b]) = Exited (Some 1) out \<longrightarrow>
      mergeBase v w dir (a # b # rest) tr =
        (Inr None, tr @ [EvSpawn dir (COMMON_ARGS @ [''merge-base'', a, b]) (Exited (Some 1) out)])) \<and>
   (spawn w tr dir (COMMON_ARGS @ [''merge-base'', a, b]) = Exited code out \<and> code \<noteq> Some 0 \<and> code \<noteq> Some 1 \<longrightarrow>
      (\<exists>m. mergeBase v w dir (a # b # rest) tr =
        (Inl (ExitError m code (Some out)),
         tr @ [EvSpawn dir (COMMON_ARGS @ [''merge-base'', a, b]) (Exited code out)]))) \<and>
   (spawn w tr dir (COMMON_ARGS @ [''merge-base'', a, b]) = SpawnFailed \<longrightarrow>
      (\<exists>m. mergeBase v w dir (a # b # rest) tr =
        (Inl (Error m), tr @ [EvSpawn dir (COMMON_ARGS @ [''merge-base'', a, b]) SpawnFailed])))"
proof (intro conjI impI)
  show "mergeBase v w dir [r] tr = (Inr (Some r), tr)"
    by (simp add: mergeBase_def pure_io_def)
  show "mergeBase v w dir [] tr = (Inl (Error ''empty refs!''), tr)"
    by (simp add: mergeBase_def throw_def)
next
  assume "mergeBase_loop v w dir a (b # rest) tr = (Inl e, tr')"
  then show "mergeBase v w dir (a # b # rest) tr =
        (if \<exists>m out. e = ExitError m (Some 1) out then (Inr None, tr') else (Inl e, tr'))"
    by (auto simp: mergeBase_two split: failure.splits)
next
  assume "spawn w tr dir (COMMON_ARGS @ [''merge-base'', a, b]) = Exited (Some 1) out"
  then show "mergeBase v w dir (a # b # rest) tr =
        (Inr None, tr @ [EvSpawn dir (COMMON_ARGS @ [''merge-base'', a, b]) (Exited (Some 1) out)])"
    by (simp add: mergeBase_two bind_io_def git_def rawGit_def run_git_def nonNull_def
        split: git_module.splits)
next
  assume "spawn w tr dir (COMMON_ARGS @ [''merge-base'', a, b]) = Exited code out \<and> code \<noteq> Some 0 \<and> code \<noteq> Some 1"
  then show "\<exists>m. mergeBase v w dir (a # b # rest) tr =
        (Inl (ExitError m code (Some out)),
         tr @ [EvSpawn dir (COMMON_ARGS @ [''merge-base'', a, b]) (Exited code out)])"
    by (simp add: mergeBase_two bind_io_def git_def rawGit_def run_git_def nonNull_def
        split: git_module.splits)
next
  assume "spawn w tr dir (COMMON_ARGS @ [''merge-base'', a, b]) = SpawnFailed"
  then show "\<exists>m. mergeBase v w dir (a # b # rest) tr =
        (Inl (Error m), tr @ [EvSpawn dir (COMMON_ARGS @ [''merge-base'', a, b]) SpawnFailed])"
    by (simp add: mergeBase_two bind_io_def git_def rawGit_def run_git_def nonNull_def
        split: git_module.splits)
qed

theorem mergeBase_edge_cases_witness:
  "mergeBase GitTs (allCommands (Exited (Some 1) [])) ''/work'' [''HEAD'', ''refs/remotes/origin/master''] [] =
     (Inr None, [EvSpawn ''/work'' (COMMON_ARGS @ [''merge-base'', ''HEAD'', ''refs/remotes/origin/master''])
                   (Exited (Some 1) [])]) \<and>
   fst (mergeBase GitTs (allCommands (Exited (Some 128) ''fatal'')) ''/work'' [''HEAD'', ''refs/remotes/origin/master''] []) =
     Inl (ExitError ''command failed with code 128: git merge-base HEAD refs/remotes/origin/master''
            (Some 128) (Some ''fatal'')) \<and>
   fst (mergeBase GitTs (allCommands SpawnFailed) ''/work'' [''HEAD'', ''refs/remotes/origin/master''] []) =
     Inl (Error ''command failed: git merge-base HEAD refs/remotes/origin/master'') \<and>
   mergeBase GitTs (allCommands SpawnFailed) ''/work'' [''HEAD''] [] = (Inr (Some ''HEAD''), [])"
proof -
  let ?a = "''HEAD''" and ?b = "''refs/remotes/origin/master''"
  note th = mergeBase_edge_cases [where dir = "''/work''" and a = ?a and b = ?b and rest = "[]" and tr = "[]" and v = GitTs]
  have a: "mergeBase GitTs (allCommands (Exited (Some 1) [])) ''/work'' [?a, ?b] [] =
     (Inr None, [EvSpawn ''/work'' (COMMON_ARGS @ [''merge-base'', ?a, ?b]) (Exited (Some 1) [])])"
    using th [where w = "allCommands (Exited (Some 1) [])" and out = "[]"]
    by (simp add: allCommands_def calm_def)
  have b: "fst (mergeBase GitTs (allCommands (Exited (Some 128) ''fatal'')) ''/work'' [?a, ?b] []) =
     Inl (ExitError ''command failed with code 128: git merge-base HEAD refs/remotes/origin/master''
            (Some 128) (Some ''fatal''))"
    using th [where w = "allCommands (Exited (Some 128) ''fatal'')"
        and e = "ExitError ''command failed with code 128: git merge-base HEAD refs/remotes/origin/master'' (Some 128) (Some ''fatal'')"
        and tr' = "[EvSpawn ''/work'' (COMMON_ARGS @ [''merge-base'', ?a, ?b]) (Exited (Some 128) ''fatal'')]"]
    by (simp add: allCommands_def calm_def bind_io_def git_eval)
  have c: "fst (mergeBase GitTs (allCommands SpawnFailed) ''/work'' [?a, ?b] []) =
     Inl (Error ''command failed: git merge-base HEAD refs/remotes/origin/master'')"
    using th [where w = "allCommands SpawnFailed"
        and e = "Error ''command failed: git merge-base HEAD refs/remotes/origin/master''"
        and tr' = "[EvSpawn ''/work'' (COMMON_ARGS @ [''merge-base'', ?a, ?b]) SpawnFailed]"]
    by (simp add: allCommands_def calm_def bind_io_def git_eval)
  have d: "mergeBase GitTs (allCommands SpawnFailed) ''/work'' [''HEAD''] [] = (Inr (Some ''HEAD''), [])"
    using mergeBase_edge_cases [where w = "allCommands SpawnFailed" and dir = "''/work''" and r = "''HEAD''" and tr = "[]" and v = GitTs]
    by simp
  from a b c d show ?thesis by simp
qed

lemma env_set:
  "environ w nm = Some val \<Longrightarrow> val \<noteq> [] \<Longrightarrow> env w nm tr = (Inr val, tr)"
  by (simp add: env_def pure_io_def)

lemma canMergeCleanly_after_prepare:
  "prepare v w dir b mb tr = (Inr (), tr1) \<Longrightarrow>
   canMergeCleanly v w dir b mb tr =
     (case git v w dir [Some ''merge'', Some ''--quiet'', Some ''--no-commit'', Some (mergeRef v mb)] tr1 of
        (Inr out, tr2) \<Rightarrow>
          (case abortMerge v w dir tr2 of
             (Inr u, tr3) \<Rightarrow> (Inr None, tr3)
           | (Inl e, tr3) \<Rightarrow> afterFailedMerge v w dir e tr3)
      | (Inl err, tr2) \<Rightarrow> afterFailedMerge v w dir err tr2)"
  by (auto simp: canMergeCleanly_def bind_io_def catch_io_def pure_io_def
      split: prod.splits sum.splits)

lemma afterFailedMerge_other:
  "\<not> isExitError err \<Longrightarrow> abortMerge v w dir tr = (Inr (), tr') \<Longrightarrow>
     afterFailedMerge v w dir err tr = (Inr None, tr')"
  by (cases err) (simp_all add: afterFailedMerge_def bind_io_def pure_io_def)

text \<open>
  Claim C10. When the exploratory \<^verbatim>\<open>git merge --no-commit\<close> inside \<^verbatim>\<open>canMergeCleanly\<close> fails
  with an error that is not an \<^verbatim>\<open>ExitError\<close> (the process cannot be started) and the
  following \<^verbatim>\<open>abortMerge\<close> returns, \<^verbatim>\<open>canMergeCleanly\<close> returns \<^verbatim>\<open>null\<close>. That is the value
  it returns after a merge that went through cleanly, and \<^verbatim>\<open>checkRollupToMaster\<close> answers
  \<^verbatim>\<open>true\<close> (no rollup conflict) on it and posts neither comment nor status.
\<close>

theorem canMergeCleanly_hides_other_errors:
  "(prepare v w dir b mb tr = (Inr (), tr1) \<and>
    git v w dir [Some ''merge'', Some ''--quiet'', Some ''--no-commit'', Some (mergeRef v mb)] tr1 = (Inl err, tr2) \<and>
    \<not> isExitError err \<and>
    abortMerge v w dir tr2 = (Inr (), tr3) \<longrightarrow>
      canMergeCleanly v w dir b mb tr = (Inr None, tr3)) \<and>
   (prepare v w dir b mb tr = (Inr (), tr1) \<and>
    spawn w tr1 dir (COMMON_ARGS @ [''merge'', ''--quiet'', ''--no-commit'', mergeRef v mb]) = SpawnFailed \<and>
    abortMerge v w dir
      (tr1 @ [EvSpawn dir (COMMON_ARGS @ [''merge'', ''--quiet'', ''--no-commit'', mergeRef v mb]) SpawnFailed]) =
      (Inr (), tr3) \<longrightarrow>
      canMergeCleanly v w dir b mb tr = (Inr None, tr3)) \<and>
   (prepare v w dir b mb tr = (Inr (), tr1) \<and>
    git v w dir [Some ''merge'', Some ''--quiet'', Some ''--no-commit'', Some (mergeRef v mb)] tr1 = (Inr out, tr2) \<and>
    abortMerge v w dir tr2 = (Inr (), tr3) \<longrightarrow>
      canMergeCleanly v w dir b mb tr = (Inr None, tr3)) \<and>
   (environ w ''GITHUB_WORKSPACE'' = Some dir \<and> dir \<noteq> [] \<and>
    canMergeCleanly v w dir ''master'' (ref (head pr)) tr = (Inr None, tr3) \<and>
    listStatusesForRef w tr3 Actions (sha (head pr)) (owner_login (repo (base pr))) (name (repo (base pr))) = Inr sts \<longrightarrow>
      checkRollupToMaster v w pr tr =
        (Inr True, tr3 @ [EvListStatuses Actions (sha (head pr)) (owner_login (repo (base pr)))
                            (name (repo (base pr))) (Inr sts)]))"
proof (intro conjI impI)
  assume "prepare v w dir b mb tr = (Inr (), tr1) \<and>
    git v w dir [Some ''merge'', Some ''--quiet'', Some ''--no-commit'', Some (mergeRef v mb)] tr1 = (Inl err, tr2) \<and>
    \<not> isExitError err \<and> abortMerge v w dir tr2 = (Inr (), tr3)"
  then show "canMergeCleanly v w dir b mb tr = (Inr None, tr3)"
    by (simp add: canMergeCleanly_after_prepare afterFailedMerge_other)
next
  let ?argv = "COMMON_ARGS @ [''merge'', ''--quiet'', ''--no-commit'', mergeRef v mb]"
  assume a: "prepare v w dir b mb tr = (Inr (), tr1) \<and>
    spawn w tr1 dir ?argv = SpawnFailed \<and>
    abortMerge v w dir (tr1 @ [EvSpawn dir ?argv SpawnFailed]) = (Inr (), tr3)"
  obtain r tr2 where g: "git v w dir [Some ''merge'', Some ''--quiet'', Some ''--no-commit'', Some (mergeRef v mb)] tr1 = (r, tr2)"
    by (cases "git v w dir [Some ''merge'', Some ''--quiet'', Some ''--no-commit'', Some (mergeRef v mb)] tr1")
  from git_spawned [OF g] a have tr2: "tr2 = tr1 @ [EvSpawn dir ?argv SpawnFailed]"
    by (simp add: nonNull_def)
  from g a obtain err where r: "r = Inl err"
    by (cases r) (auto simp: git_Inr nonNull_def)
  from git_Inl [OF g [unfolded r]] a have "\<not> isExitError err"
    by (auto simp: nonNull_def)
  with a g r tr2 show "canMergeCleanly v w dir b mb tr = (Inr None, tr3)"
    by (simp add: canMergeCleanly_after_prepare afterFailedMerge_other)
next
  assume "prepare v w dir b mb tr = (Inr (), tr1) \<and>
    git v w dir [Some ''merge'', Some ''--quiet'', Some ''--no-commit'', Some (mergeRef v mb)] tr1 = (Inr out, tr2) \<and>
    abortMerge v w dir tr2 = (Inr (), tr3)"
  then show "canMergeCleanly v w dir b mb tr = (Inr None, tr3)"
    by (simp add: canMergeCleanly_after_prepare)
next
  assume "environ w ''GITHUB_WORKSPACE'' = Some dir \<and> dir \<noteq> [] \<and>
    canMergeCleanly v w dir ''master'' (ref (head pr)) tr = (Inr None, tr3) \<and>
    listStatusesForRef w tr3 Actions (sha (head pr)) (owner_login (repo (base pr))) (name (repo (base pr))) = Inr sts"
  then show "checkRollupToMaster v w pr tr =
        (Inr True, tr3 @ [EvListStatuses Actions (sha (head pr)) (owner_login (repo (base pr)))
                            (name (repo (base pr))) (Inr sts)])"
    by (simp add: checkRollupToMaster_def bind_io_def env_set listStatuses_def Let_def pure_io_def)
qed


lemmas scenario_eval = calm_def allCommands_def commandsWhere_def exploratoryMerge_def releasePR_def
  sampleRepo_def sampleContext_def

lemmas io_eval = bind_io_def catch_io_def pure_io_def throw_def

theorem canMergeCleanly_hides_other_errors_witness:
  "fst (canMergeCleanly GitTs (commandsWhere exploratoryMerge SpawnFailed) ''/work'' ''master'' ''hotfix'' []) = Inr None \<and>
   fst (canMergeCleanly GitJs (commandsWhere exploratoryMerge SpawnFailed) ''/work'' ''master'' ''hotfix'' []) = Inr None \<and>
   fst (canMergeCleanly GitTs calm ''/work'' ''master'' ''hotfix'' []) = Inr None \<and>
   fst (checkRollupToMaster GitTs (commandsWhere exploratoryMerge SpawnFailed) releasePR []) = Inr True"
proof -
  let ?w = "commandsWhere exploratoryMerge SpawnFailed"
  let ?pre = "[EvSpawn ''/work'' (COMMON_ARGS @ [''checkout'', ''master'']) (Exited (Some 0) []),
               EvSpawn ''/work'' (COMMON_ARGS @ [''pull'', ''--quiet'', ''--no-commit'']) (Exited (Some 0) []),
               EvSpawn ''/work'' (COMMON_ARGS @ [''fetch'', ''--quiet'', ''origin'', ''hotfix:refs/remotes/origin/hotfix''])
                 (Exited (Some 0) [])]"
  let ?abort = "EvSpawn ''/work'' (COMMON_ARGS @ [''merge'', ''--abort'']) (Exited (Some 0) [])"
  have prep: "prepare v ?w ''/work'' ''master'' ''hotfix'' [] = (Inr (), ?pre)" for v
    by (cases v) (simp_all add: prepare_def io_eval git_eval scenario_eval)
  have prepc: "prepare GitTs calm ''/work'' ''master'' ''hotfix'' [] = (Inr (), ?pre)"
    by (simp add: prepare_def io_eval git_eval scenario_eval)
  have ab: "abortMerge v ?w ''/work'' (?pre @ [EvSpawn ''/work'' (COMMON_ARGS @ [''merge'', ''--quiet'', ''--no-commit'', mergeRef v ''hotfix'']) SpawnFailed])
      = (Inr (), ?pre @ [EvSpawn ''/work'' (COMMON_ARGS @ [''merge'', ''--quiet'', ''--no-commit'', mergeRef v ''hotfix'']) SpawnFailed, ?abort])" for v
    by (cases v) (simp_all add: abortMerge_eq git_eval scenario_eval)
  have a: "canMergeCleanly v ?w ''/work'' ''master'' ''hotfix'' [] =
      (Inr None, ?pre @ [EvSpawn ''/work'' (COMMON_ARGS @ [''merge'', ''--quiet'', ''--no-commit'', mergeRef v ''hotfix'']) SpawnFailed, ?abort])" for v
    using canMergeCleanly_hides_other_errors [where v = v and w = ?w and dir = "''/work''" and b = "''master''"
        and mb = "''hotfix''" and tr = "[]" and ?tr1.0 = ?pre
        and ?tr3.0 = "?pre @ [EvSpawn ''/work'' (COMMON_ARGS @ [''merge'', ''--quiet'', ''--no-commit'', mergeRef v ''hotfix'']) SpawnFailed, ?abort]"]
      prep [of v] ab [of v]
    by (cases v) (simp_all add: scenario_eval mergeRef_def COMMON_ARGS_def)
  have c: "fst (canMergeCleanly GitTs calm ''/work'' ''master'' ''hotfix'' []) = Inr None"
    using canMergeCleanly_hides_other_errors [where v = GitTs and w = calm and dir = "''/work''" and b = "''master''"
        and mb = "''hotfix''" and tr = "[]" and ?tr1.0 = ?pre and out = "[]"
        and ?tr2.0 = "?pre @ [EvSpawn ''/work'' (COMMON_ARGS @ [''merge'', ''--quiet'', ''--no-commit'', ''hotfix'']) (Exited (Some 0) [])]"
        and ?tr3.0 = "?pre @ [EvSpawn ''/work'' (COMMON_ARGS @ [''merge'', ''--quiet'', ''--no-commit'', ''hotfix'']) (Exited (Some 0) []), ?abort]"]
      prepc
    by (simp add: abortMerge_eq git_eval scenario_eval mergeRef_def)
  have d: "fst (checkRollupToMaster GitTs ?w releasePR []) = Inr True"
    using canMergeCleanly_hides_other_errors [where v = GitTs and w = ?w and dir = "''/work''" and pr = releasePR
        and tr = "[]" and sts = "[]"
        and ?tr3.0 = "?pre @ [EvSpawn ''/work'' (COMMON_ARGS @ [''merge'', ''--quiet'', ''--no-commit'', mergeRef GitTs ''hotfix'']) SpawnFailed, ?abort]"]
      a [of GitTs]
    by (simp add: scenario_eval)
  from a [of GitTs] a [of GitJs] c d show ?thesis by simp
qed

section \<open>What a computation adds to the log\<close>

lemma emitsI:
  "(\<And>tr r tr'. m tr = (r, tr') \<Longrightarrow> \<exists>evs. tr' = tr @ evs \<and> list_all P evs) \<Longrightarrow> emits m P"
  by (simp add: emits_def)

lemma emitsD:
  "emits m P \<Longrightarrow> m tr = (r, tr') \<Longrightarrow> \<exists>evs. tr' = tr @ evs \<and> list_all P evs"
  by (simp add: emits_def)

lemma emits_mono: "emits m P \<Longrightarrow> (\<And>ev. P ev \<Longrightarrow> Q ev) \<Longrightarrow> emits m Q"
  unfolding emits_def by (metis (mono_tags, lifting) list.pred_mono_strong)

lemma emits_pure [intro!]: "emits (pure_io x) P"
  by (simp add: emits_def pure_io_def)

lemma emits_throw [intro!]: "emits (throw e) P"
  by (simp add: emits_def throw_def)

lemma emits_bind [intro!]:
  assumes "emits m P" and "\<And>x. emits (f x) P"
  shows "emits (bind_io m f) P"
proof (rule emitsI)
  fix tr r tr' assume b: "bind_io m f tr = (r, tr')"
  from bind_io_cases [OF b] show "\<exists>evs. tr' = tr @ evs \<and> list_all P evs"
  proof
    assume "\<exists>e. m tr = (Inl e, tr') \<and> r = Inl e"
    then show ?thesis using emitsD [OF assms(1)] by blast
  next
    assume "\<exists>x tr1. m tr = (Inr x, tr1) \<and> f x tr1 = (r, tr')"
    then obtain x tr1 where m: "m tr = (Inr x, tr1)" and f: "f x tr1 = (r, tr')" by blast
    from emitsD [OF assms(1) m] obtain e1 where e1: "tr1 = tr @ e1" "list_all P e1" by blast
    from emitsD [OF assms(2) f] obtain e2 where e2: "tr' = tr1 @ e2" "list_all P e2" by blast
    from e1 e2 have "tr' = tr @ (e1 @ e2) \<and> list_all P (e1 @ e2)" by simp
    then show ?thesis by blast
  qed
qed

lemma emits_catch [intro!]:
  assumes "emits m P" and "\<And>e. emits (h e) P"
  shows "emits (catch_io m h) P"
proof (rule emitsI)
  fix tr r tr' assume c: "catch_io m h tr = (r, tr')"
  obtain r1 tr1 where m: "m tr = (r1, tr1)" by (cases "m tr")
  from emitsD [OF assms(1) m] obtain e1 where e1: "tr1 = tr @ e1" "list_all P e1" by blast
  show "\<exists>evs. tr' = tr @ evs \<and> list_all P evs"
  proof (cases r1)
    case (Inl e)
    with c m have "h e tr1 = (r, tr')" by (simp add: catch_io_def)
    from emitsD [OF assms(2) this] obtain e2 where e2: "tr' = tr1 @ e2" "list_all P e2" by blast
    from e1 e2 have "tr' = tr @ (e1 @ e2) \<and> list_all P (e1 @ e2)" by simp
    then show ?thesis by blast
  next
    case (Inr x)
    with c m e1 show ?thesis by (auto simp: catch_io_def)
  qed
qed

lemma emits_git [intro!]:
  "(\<And>out. P (EvSpawn cwd (COMMON_ARGS @ nonNull args) out)) \<Longrightarrow> emits (git v w cwd args) P"
  by (rule emitsI) (auto dest!: git_spawned)

lemma emits_rawGit [intro!]:
  "(\<And>out. P (EvSpawn cwd args out)) \<Longrightarrow> emits (rawGit w cwd args) P"
  by (rule emitsI) (auto simp: rawGit_def run_git_def Let_def split: proc_outcome.splits if_splits)

lemma emits_delay [intro!]: "P (EvDelay ms) \<Longrightarrow> emits (delay ms) P"
  by (rule emitsI) (auto simp: delay_def)

lemma emits_env [intro!]: "emits (env w nm) P"
  by (auto simp: env_def split: option.splits)

lemma emits_if [intro!]: "(c \<Longrightarrow> emits a P) \<Longrightarrow> (\<not> c \<Longrightarrow> emits b P) \<Longrightarrow> emits (if c then a else b) P"
  by simp

lemma emits_abortMerge [intro!]: "(\<And>ev. isSpawn ev \<Longrightarrow> P ev) \<Longrightarrow> emits (abortMerge v w dir) P"
  by (auto simp: abortMerge_def split: failure.splits)

lemma emits_afterFailedMerge [intro!]:
  "(\<And>ev. isSpawn ev \<Longrightarrow> P ev) \<Longrightarrow> emits (afterFailedMerge v w dir err) P"
  by (auto simp: afterFailedMerge_def split: failure.splits)

lemma emits_prepare [intro!]: "(\<And>ev. isSpawn ev \<Longrightarrow> P ev) \<Longrightarrow> emits (prepare v w dir b mb) P"
  by (auto simp: prepare_def)

lemma emits_canMergeCleanly [intro!]:
  "(\<And>ev. isSpawn ev \<Longrightarrow> P ev) \<Longrightarrow> emits (canMergeCleanly v w dir b mb) P"
  by (auto simp: canMergeCleanly_def)

lemma emits_merge [intro!]:
  "(\<And>ev. isSpawn ev \<Longrightarrow> P ev) \<Longrightarrow> emits (merge v w dir b mb msg) P"
  by (auto simp: merge_def split: git_module.splits)

lemma emits_push [intro!]: "(\<And>ev. isSpawn ev \<Longrightarrow> P ev) \<Longrightarrow> emits (push v w dir force b) P"
  by (auto simp: push_def)

lemma emits_setGitRemote [intro!]:
  "(\<And>ev. isSpawn ev \<Longrightarrow> P ev) \<Longrightarrow> emits (setGitRemoteToAppPermission v w ctx) P"
  by (auto simp: setGitRemoteToAppPermission_def setRemote_def removeGitHubConfigs_def)

lemma emits_listStatuses [intro!]:
  "(\<And>ev. \<not> isPullsMerge ev \<Longrightarrow> P ev) \<Longrightarrow> emits (listStatuses w pr) P"
  by (rule emitsI) (auto simp: listStatuses_def Let_def)

lemma emits_addCommentToPR [intro!]:
  "(\<And>ev. \<not> isPullsMerge ev \<Longrightarrow> P ev) \<Longrightarrow> emits (addCommentToPR w pr c) P"
  by (rule emitsI) (auto simp: addCommentToPR_def Let_def)

lemma emits_postFailure [intro!]:
  "(\<And>ev. \<not> isPullsMerge ev \<Longrightarrow> P ev) \<Longrightarrow> emits (postFailure w pr d) P"
  by (rule emitsI) (auto simp: postFailure_def Let_def)

lemma isSpawn_not_merge: "isSpawn ev \<Longrightarrow> \<not> isPullsMerge ev"
  by (cases ev) simp_all

lemma emits_checkRollupToMaster [intro!]:
  "(\<And>ev. \<not> isPullsMerge ev \<Longrightarrow> P ev) \<Longrightarrow> emits (checkRollupToMaster v w pr) P"
  by (auto simp: checkRollupToMaster_def isSpawn_not_merge split: option.splits)

lemma emits_mergePR:
  "(\<And>res. P (EvPullsMerge App (owner_login (repo (base pr))) (name (repo (base pr))) (number pr) c
      (sha (head pr)) m res)) \<Longrightarrow> emits (mergePR w pr m c) P"
  by (rule emitsI) (auto simp: mergePR_def Let_def)

lemma emits_retry_loop:
  "emits doRetry P \<Longrightarrow> emits doFailed P \<Longrightarrow> P (EvDelay sleep) \<Longrightarrow> emits (retry_loop k sleep doRetry doFailed) P"
  by (induction k) auto

lemma emits_tryMerge:
  "(\<And>ev. mergesWith pr (m, c) ev \<Longrightarrow> P ev) \<Longrightarrow> P (EvDelay 10000) \<Longrightarrow> emits (tryMerge w pr m c) P"
  unfolding tryMerge_def retry_def
  by (intro emits_bind emits_if emits_pure emits_retry_loop emits_mergePR) simp_all



section \<open>The classifier\<close>

text \<open>
  Claim C2. For a pull request whose mergeability state is neither \<^verbatim>\<open>clean\<close> nor
  \<^verbatim>\<open>unstable\<close>, \<^verbatim>\<open>processPR\<close> throws \<^verbatim>\<open>NoError\<close> and the log of interactions is unchanged:
  no command is run and no request is sent, whatever the labels and the base branch
  are. The earlier \<^verbatim>\<open>processPR\<close> does the same.
\<close>

theorem processPR_skips_unmergeable:
  "mergeable_state pr \<noteq> ''clean'' \<and> mergeable_state pr \<noteq> ''unstable'' \<longrightarrow>
     processPR v w ctx pr tr = (Inl NoError, tr) \<and> processPR0 v w pr tr = (Inl NoError, tr)"
  by (simp add: processPR_def processPR0_def throw_def)

theorem processPR_skips_unmergeable_witness:
  "processPR GitJs calm sampleContext dirtyPR [] = (Inl NoError, []) \<and>
   processPR0 GitTs calm dirtyPR [] = (Inl NoError, []) \<and>
   processPR GitJs calm sampleContext (dirtyPR\<lparr>labels := []\<rparr>) [] = (Inl NoError, []) \<and>
   processPR GitJs calm sampleContext (dirtyPR\<lparr>base := (base dirtyPR)\<lparr>ref := ''master''\<rparr>\<rparr>) [] = (Inl NoError, [])"
  using processPR_skips_unmergeable [of dirtyPR GitJs calm sampleContext "[]"]
    processPR_skips_unmergeable [of dirtyPR GitTs calm sampleContext "[]"]
    processPR_skips_unmergeable [of "dirtyPR\<lparr>labels := []\<rparr>" GitJs calm sampleContext "[]"]
    processPR_skips_unmergeable [of "dirtyPR\<lparr>base := (base dirtyPR)\<lparr>ref := ''master''\<rparr>\<rparr>" GitJs calm sampleContext "[]"]
  by (simp add: dirtyPR_def releasePR_def)


lemmas pr_eval = dirtyPR_def masterPR_def developPR_def releasePR_def sampleRepo_def sampleContext_def


section \<open>The merge attempt executor\<close>

lemma mergePR_result:
  "mergePR w pr m c tr = (r, tr') \<Longrightarrow>
     \<exists>ev. tr' = tr @ [ev] \<and> mergesWith pr (m, c) ev \<and> isPullsMerge ev \<and> r = Inr (accepted ev)"
  by (auto simp: mergePR_def Let_def)

lemma retry_loop_Suc:
  "doRetry (tr @ [EvDelay sleep]) = (Inr ok, tr1) \<Longrightarrow>
   retry_loop (Suc k) sleep doRetry doFailed tr =
     (if ok then (Inr True, tr1) else retry_loop k sleep doRetry doFailed tr1)"
  by (simp add: bind_io_def delay_def pure_io_def)

lemma retry_loop_0: "retry_loop 0 sleep doRetry (pure_io False) tr = (Inr False, tr)"
  by (simp add: bind_io_def pure_io_def)

lemma retry_first:
  "doInitial tr = (Inr ok, tr1) \<Longrightarrow>
   retry k sleep doInitial doRetry doFailed tr =
     (if ok then (Inr True, tr1) else retry_loop k sleep doRetry doFailed tr1)"
  by (simp add: retry_def bind_io_def pure_io_def)

lemma retry_loop_shape:
  assumes step: "\<And>tr r tr'. doRetry tr = (r, tr') \<Longrightarrow>
            \<exists>ev. tr' = tr @ [ev] \<and> P ev \<and> isPullsMerge ev \<and> r = Inr (accepted ev)"
    and del: "P (EvDelay sleep)"
  shows "retry_loop k sleep doRetry (pure_io False) tr = (r, tr') \<Longrightarrow>
     \<exists>b evs. r = Inr b \<and> tr' = tr @ evs \<and> list_all P evs \<and>
        (case evs of [] \<Rightarrow> k = 0 \<and> \<not> b
         | d # rest \<Rightarrow> d = EvDelay sleep \<and> 0 < k \<and> attemptsShape sleep (k - 1) b rest)"
proof (induction k arbitrary: tr r tr')
  case 0
  then show ?case by (auto simp: bind_io_def pure_io_def)
next
  case (Suc k)
  obtain r1 tr1 where d: "doRetry (tr @ [EvDelay sleep]) = (r1, tr1)"
    by (cases "doRetry (tr @ [EvDelay sleep])")
  from step [OF d] obtain ev where ev: "tr1 = tr @ [EvDelay sleep] @ [ev]" "P ev" "isPullsMerge ev" "r1 = Inr (accepted ev)"
    by auto
  from d ev have d': "doRetry (tr @ [EvDelay sleep]) = (Inr (accepted ev), tr1)" by simp
  show ?case
  proof (cases "accepted ev")
    case True
    with Suc.prems retry_loop_Suc [where doRetry = doRetry and tr = tr, OF d'] have "r = Inr True \<and> tr' = tr @ [EvDelay sleep, ev]"
      using ev by simp
    with ev True del show ?thesis by auto
  next
    case False
    with Suc.prems retry_loop_Suc [where doRetry = doRetry and tr = tr, OF d'] have rest: "retry_loop k sleep doRetry (pure_io False) tr1 = (r, tr')"
      by simp
    from Suc.IH [OF rest] obtain b evs where
      b: "r = Inr b" "tr' = tr1 @ evs" "list_all P evs"
        "case evs of [] \<Rightarrow> k = 0 \<and> \<not> b
         | d # rest \<Rightarrow> d = EvDelay sleep \<and> 0 < k \<and> attemptsShape sleep (k - 1) b rest"
      by blast
    from b(4) ev False have "attemptsShape sleep k b (ev # evs)"
      by (cases evs) auto
    with b ev del have "r = Inr b \<and> tr' = tr @ (EvDelay sleep # ev # evs) \<and> list_all P (EvDelay sleep # ev # evs) \<and>
        attemptsShape sleep k b (ev # evs)" by simp
    then show ?thesis by (intro exI [of _ b] exI [of _ "EvDelay sleep # ev # evs"]) simp
  qed
qed

lemma retry_shape:
  assumes step: "\<And>tr r tr'. attempt tr = (r, tr') \<Longrightarrow>
            \<exists>ev. tr' = tr @ [ev] \<and> P ev \<and> isPullsMerge ev \<and> r = Inr (accepted ev)"
    and del: "P (EvDelay sleep)"
    and run: "retry k sleep attempt attempt (pure_io False) tr = (r, tr')"
  shows "\<exists>b evs. r = Inr b \<and> tr' = tr @ evs \<and> attemptsShape sleep k b evs \<and> list_all P evs"
proof -
  obtain r1 tr1 where d: "attempt tr = (r1, tr1)" by (cases "attempt tr")
  from step [OF d] obtain ev where ev: "tr1 = tr @ [ev]" "P ev" "isPullsMerge ev" "r1 = Inr (accepted ev)"
    by auto
  from d ev have d': "attempt tr = (Inr (accepted ev), tr1)" by simp
  show ?thesis
  proof (cases "accepted ev")
    case True
    with run retry_first [where doInitial = attempt and tr = tr, OF d'] have "r = Inr True \<and> tr' = tr @ [ev]" using ev by simp
    with ev True show ?thesis by auto
  next
    case False
    with run retry_first [where doInitial = attempt and tr = tr, OF d'] have rest: "retry_loop k sleep attempt (pure_io False) tr1 = (r, tr')"
      by simp
    from retry_loop_shape [OF step del rest] obtain b evs where
      b: "r = Inr b" "tr' = tr1 @ evs" "list_all P evs"
        "case evs of [] \<Rightarrow> k = 0 \<and> \<not> b
         | d # rest \<Rightarrow> d = EvDelay sleep \<and> 0 < k \<and> attemptsShape sleep (k - 1) b rest"
      by blast
    from b(4) ev False have "attemptsShape sleep k b (ev # evs)"
      by (cases evs) auto
    with b ev have "r = Inr b \<and> tr' = tr @ (ev # evs) \<and> attemptsShape sleep k b (ev # evs) \<and> list_all P (ev # evs)"
      by simp
    then show ?thesis by blast
  qed
qed

lemma attemptsShape_counts:
  "attemptsShape sleep k b evs \<Longrightarrow>
     1 \<le> length (filter isPullsMerge evs) \<and> length (filter isPullsMerge evs) \<le> Suc k \<and>
     Suc (length (filter (\<lambda>ev. ev = EvDelay sleep) evs)) = length (filter isPullsMerge evs) \<and>
     length evs + 1 = 2 * length (filter isPullsMerge evs) \<and>
     (b \<longleftrightarrow> accepted (last evs)) \<and> list_all (\<lambda>ev. \<not> accepted ev) (butlast evs) \<and>
     (\<not> b \<longrightarrow> length (filter isPullsMerge evs) = Suc k)"
proof (induction sleep k b evs rule: attemptsShape.induct)
  case (1 sleep k b)
  then show ?case by simp
next
  case (2 sleep k b ev)
  then show ?case by (cases ev) (auto split: if_splits)
next
  case (3 sleep k b ev d rest)
  then have "rest \<noteq> []" by auto
  with 3 show ?case by (cases ev) auto
qed

text \<open>
  Claim C6. \<^verbatim>\<open>tryMerge\<close> always returns a boolean. What it adds to the log is a run of
  merge requests for the pull request, with the chosen method and message, separated by
  delays of 10000 ms: at least one request and at most four, one delay before each
  request but the first, and nothing after a request that was answered with 200. The
  result is \<^verbatim>\<open>true\<close> exactly when the last request was answered with 200; when it is
  \<^verbatim>\<open>false\<close>, exactly four requests were made (the first attempt and three retries).
\<close>

theorem tryMerge_attempts:
  "tryMerge w pr m c tr = (r, tr') \<longrightarrow>
     (\<exists>b evs. r = Inr b \<and> tr' = tr @ evs \<and> attemptsShape 10000 3 b evs \<and>
        list_all (\<lambda>ev. ev = EvDelay 10000 \<or> mergesWith pr (m, c) ev) evs \<and>
        1 \<le> length (filter isPullsMerge evs) \<and> length (filter isPullsMerge evs) \<le> 4 \<and>
        Suc (length (filter (\<lambda>ev. ev = EvDelay 10000) evs)) = length (filter isPullsMerge evs) \<and>
        (b \<longleftrightarrow> accepted (last evs)) \<and> list_all (\<lambda>ev. \<not> accepted ev) (butlast evs) \<and>
        (\<not> b \<longrightarrow> length (filter isPullsMerge evs) = 4))"
proof
  assume run: "tryMerge w pr m c tr = (r, tr')"
  have step: "\<And>tr r tr'. mergePR w pr m c tr = (r, tr') \<Longrightarrow>
      \<exists>ev. tr' = tr @ [ev] \<and> (ev = EvDelay 10000 \<or> mergesWith pr (m, c) ev) \<and> isPullsMerge ev \<and>
        r = Inr (accepted ev)"
    using mergePR_result by blast
  from retry_shape [where P = "\<lambda>ev. ev = EvDelay 10000 \<or> mergesWith pr (m, c) ev"
      and attempt = "mergePR w pr m c" and sleep = 10000 and k = 3 and tr = tr and r = r and tr' = tr', OF step]
    run
  obtain b evs where b: "r = Inr b" "tr' = tr @ evs" "attemptsShape 10000 3 b evs"
    "list_all (\<lambda>ev. ev = EvDelay 10000 \<or> mergesWith pr (m, c) ev) evs"
    by (auto simp: tryMerge_def)
  from attemptsShape_counts [OF b(3)] b
  show "\<exists>b evs. r = Inr b \<and> tr' = tr @ evs \<and> attemptsShape 10000 3 b evs \<and>
        list_all (\<lambda>ev. ev = EvDelay 10000 \<or> mergesWith pr (m, c) ev) evs \<and>
        1 \<le> length (filter isPullsMerge evs) \<and> length (filter isPullsMerge evs) \<le> 4 \<and>
        Suc (length (filter (\<lambda>ev. ev = EvDelay 10000) evs)) = length (filter isPullsMerge evs) \<and>
        (b \<longleftrightarrow> accepted (last evs)) \<and> list_all (\<lambda>ev. \<not> accepted ev) (butlast evs) \<and>
        (\<not> b \<longrightarrow> length (filter isPullsMerge evs) = 4)"
    by (intro exI [of _ b] exI [of _ evs]) simp
qed

lemmas tryMerge_eval = tryMerge_def retry_def numeral_3_eq_3 mergePR_def mergeRefused_def mergeAcceptedAt_def
  calm_def io_eval delay_def Let_def pr_eval

theorem tryMerge_attempts_witness:
  "tryMerge mergeRefused releasePR Merge None [] =
     (Inr False,
      [EvPullsMerge App ''acme'' ''app'' 7 None ''abc123'' Merge (Inr 405), EvDelay 10000,
       EvPullsMerge App ''acme'' ''app'' 7 None ''abc123'' Merge (Inr 405), EvDelay 10000,
       EvPullsMerge App ''acme'' ''app'' 7 None ''abc123'' Merge (Inr 405), EvDelay 10000,
       EvPullsMerge App ''acme'' ''app'' 7 None ''abc123'' Merge (Inr 405)]) \<and>
   tryMerge (mergeAcceptedAt 2) releasePR Merge None [] =
     (Inr True,
      [EvPullsMerge App ''acme'' ''app'' 7 None ''abc123'' Merge (Inr 405), EvDelay 10000,
       EvPullsMerge App ''acme'' ''app'' 7 None ''abc123'' Merge (Inr 200)]) \<and>
   tryMerge (mergeAcceptedAt 4) releasePR Merge None [] =
     (Inr True,
      [EvPullsMerge App ''acme'' ''app'' 7 None ''abc123'' Merge (Inr 405), EvDelay 10000,
       EvPullsMerge App ''acme'' ''app'' 7 None ''abc123'' Merge (Inr 405), EvDelay 10000,
       EvPullsMerge App ''acme'' ''app'' 7 None ''abc123'' Merge (Inr 405), EvDelay 10000,
       EvPullsMerge App ''acme'' ''app'' 7 None ''abc123'' Merge (Inr 200)]) \<and>
   tryMerge (mergeAcceptedAt 5) releasePR Merge None [] = tryMerge mergeRefused releasePR Merge None []"
  using tryMerge_attempts [of mergeRefused releasePR Merge None "[]"
      "fst (tryMerge mergeRefused releasePR Merge None [])" "snd (tryMerge mergeRefused releasePR Merge None [])"]
    tryMerge_attempts [of "mergeAcceptedAt 2" releasePR Merge None "[]"
      "fst (tryMerge (mergeAcceptedAt 2) releasePR Merge None [])" "snd (tryMerge (mergeAcceptedAt 2) releasePR Merge None [])"]
  by (simp add: tryMerge_eval)

section \<open>The mergeability prober\<close>

lemma checkMergeability_unfold:
  "checkMergeability w pr n tr =
     (case pulls_get w tr App (owner_login (repo (base pr))) (name (repo (base pr))) (number pr) of
        Inl e \<Rightarrow>
          (Inl e, tr @ [EvPullsGet App (owner_login (repo (base pr))) (name (repo (base pr))) (number pr) (Inl e)])
      | Inr pull \<Rightarrow>
          if undecided pull \<and> 0 < n then
            checkMergeability w pr (n - 1)
              (tr @ [EvPullsGet App (owner_login (repo (base pr))) (name (repo (base pr))) (number pr) (Inr pull),
                     EvDelay 2000])
          else
            (Inr pull,
             tr @ [EvPullsGet App (owner_login (repo (base pr))) (name (repo (base pr))) (number pr) (Inr pull)]))"
  by (subst checkMergeability.simps)
     (simp add: getPull_def bind_io_def delay_def pure_io_def Let_def undecided_def split: sum.splits)

lemma checkMergeability_shape:
  "checkMergeability w pr n tr = (r, tr') \<Longrightarrow>
     \<exists>evs. tr' = tr @ evs \<and> pollShape n r evs \<and>
       int (length (filter (\<lambda>ev. ev = EvDelay 2000) evs)) \<le> max n 0 \<and>
       length (filter isPullsGet evs) = Suc (length (filter (\<lambda>ev. ev = EvDelay 2000) evs))"
proof (induction "nat n" arbitrary: n tr)
  case 0
  then have n: "\<not> 0 < n" by simp
  let ?res = "pulls_get w tr App (owner_login (repo (base pr))) (name (repo (base pr))) (number pr)"
  let ?ev = "EvPullsGet App (owner_login (repo (base pr))) (name (repo (base pr))) (number pr) ?res"
  from "0.prems" n have "r = ?res \<and> tr' = tr @ [?ev]"
    by (subst (asm) checkMergeability_unfold) (auto split: sum.splits)
  with n have "tr' = tr @ [?ev] \<and> pollShape n r [?ev] \<and>
       int (length (filter (\<lambda>ev. ev = EvDelay 2000) [?ev])) \<le> max n 0 \<and>
       length (filter isPullsGet [?ev]) = Suc (length (filter (\<lambda>ev. ev = EvDelay 2000) [?ev]))"
    by (auto split: sum.splits)
  then show ?case by blast
next
  case (Suc k)
  then have n: "0 < n" and k: "k = nat (n - 1)" by auto
  let ?res = "pulls_get w tr App (owner_login (repo (base pr))) (name (repo (base pr))) (number pr)"
  let ?ev = "EvPullsGet App (owner_login (repo (base pr))) (name (repo (base pr))) (number pr) ?res"
  show ?case
  proof (cases "\<exists>pull. ?res = Inr pull \<and> undecided pull")
    case True
    then obtain pull where p: "?res = Inr pull" "undecided pull" by blast
    with Suc.prems n have rest: "checkMergeability w pr (n - 1) (tr @ [?ev, EvDelay 2000]) = (r, tr')"
      by (subst (asm) checkMergeability_unfold) simp
    from Suc.hyps(1) [OF k rest] obtain evs where
      evs: "tr' = (tr @ [?ev, EvDelay 2000]) @ evs" "pollShape (n - 1) r evs"
        "int (length (filter (\<lambda>ev. ev = EvDelay 2000) evs)) \<le> max (n - 1) 0"
        "length (filter isPullsGet evs) = Suc (length (filter (\<lambda>ev. ev = EvDelay 2000) evs))"
      by blast
    with p n have "tr' = tr @ (?ev # EvDelay 2000 # evs) \<and> pollShape n r (?ev # EvDelay 2000 # evs) \<and>
       int (length (filter (\<lambda>ev. ev = EvDelay 2000) (?ev # EvDelay 2000 # evs))) \<le> max n 0 \<and>
       length (filter isPullsGet (?ev # EvDelay 2000 # evs)) =
         Suc (length (filter (\<lambda>ev. ev = EvDelay 2000) (?ev # EvDelay 2000 # evs)))"
      by simp
    then show ?thesis by blast
  next
    case False
    with Suc.prems have "r = ?res \<and> tr' = tr @ [?ev]"
      by (subst (asm) checkMergeability_unfold) (auto split: sum.splits)
    with False n have "tr' = tr @ [?ev] \<and> pollShape n r [?ev] \<and>
       int (length (filter (\<lambda>ev. ev = EvDelay 2000) [?ev])) \<le> max n 0 \<and>
       length (filter isPullsGet [?ev]) = Suc (length (filter (\<lambda>ev. ev = EvDelay 2000) [?ev]))"
      by (auto split: sum.splits)
    then show ?thesis by blast
  qed
qed

text \<open>
  Claim C4. \<^verbatim>\<open>checkMergeability\<close> reads the pull request. If the answer is undecided
  (\<^verbatim>\<open>mergeable\<close> is \<^verbatim>\<open>null\<close> or the state is not \<^verbatim>\<open>clean\<close>) and the retry budget is positive,
  it waits 2000 ms and goes on with the budget lowered by one; if the budget is used up
  it returns the pull request as last read; a decided answer is returned at once. Every
  run therefore consists of reads separated by delays of 2000 ms, with at most as many
  delays as the budget and one read more than delays. In particular, when the reads
  deliver undecided, undecided, decided and the budget is 3, the third pull request is
  returned after exactly two delays and three reads.
\<close>

theorem checkMergeability_polls:
  "(pulls_get w tr App (owner_login (repo (base pr))) (name (repo (base pr))) (number pr) = Inr pull \<and>
      undecided pull \<and> 0 < n \<longrightarrow>
      checkMergeability w pr n tr =
        checkMergeability w pr (n - 1)
          (tr @ [EvPullsGet App (owner_login (repo (base pr))) (name (repo (base pr))) (number pr) (Inr pull),
                 EvDelay 2000])) \<and>
   (pulls_get w tr App (owner_login (repo (base pr))) (name (repo (base pr))) (number pr) = Inr pull \<and>
      undecided pull \<and> n \<le> 0 \<longrightarrow>
      checkMergeability w pr n tr =
        (Inr pull,
         tr @ [EvPullsGet App (owner_login (repo (base pr))) (name (repo (base pr))) (number pr) (Inr pull)])) \<and>
   (pulls_get w tr App (owner_login (repo (base pr))) (name (repo (base pr))) (number pr) = Inr pull \<and>
      \<not> undecided pull \<longrightarrow>
      checkMergeability w pr n tr =
        (Inr pull,
         tr @ [EvPullsGet App (owner_login (repo (base pr))) (name (repo (base pr))) (number pr) (Inr pull)])) \<and>
   (checkMergeability w pr n tr = (r, tr') \<longrightarrow>
      (\<exists>evs. tr' = tr @ evs \<and> pollShape n r evs \<and>
         int (length (filter (\<lambda>ev. ev = EvDelay 2000) evs)) \<le> max n 0 \<and>
         length (filter isPullsGet evs) = Suc (length (filter (\<lambda>ev. ev = EvDelay 2000) evs)))) \<and>
   (pulls_get w tr App (owner_login (repo (base pr))) (name (repo (base pr))) (number pr) = Inr u1 \<and>
      undecided u1 \<and>
    pulls_get w (tr @ [EvPullsGet App (owner_login (repo (base pr))) (name (repo (base pr))) (number pr) (Inr u1),
                       EvDelay 2000])
      App (owner_login (repo (base pr))) (name (repo (base pr))) (number pr) = Inr u2 \<and>
      undecided u2 \<and>
    pulls_get w (tr @ [EvPullsGet App (owner_login (repo (base pr))) (name (repo (base pr))) (number pr) (Inr u1),
                       EvDelay 2000,
                       EvPullsGet App (owner_login (repo (base pr))) (name (repo (base pr))) (number pr) (Inr u2),
                       EvDelay 2000])
      App (owner_login (repo (base pr))) (name (repo (base pr))) (number pr) = Inr c \<and>
      \<not> undecided c \<longrightarrow>
      checkMergeability w pr 3 tr =
        (Inr c,
         tr @ [EvPullsGet App (owner_login (repo (base pr))) (name (repo (base pr))) (number pr) (Inr u1),
               EvDelay 2000,
               EvPullsGet App (owner_login (repo (base pr))) (name (repo (base pr))) (number pr) (Inr u2),
               EvDelay 2000,
               EvPullsGet App (owner_login (repo (base pr))) (name (repo (base pr))) (number pr) (Inr c)]))"
proof (intro conjI impI)
  assume "checkMergeability w pr n tr = (r, tr')"
  then show "\<exists>evs. tr' = tr @ evs \<and> pollShape n r evs \<and>
         int (length (filter (\<lambda>ev. ev = EvDelay 2000) evs)) \<le> max n 0 \<and>
         length (filter isPullsGet evs) = Suc (length (filter (\<lambda>ev. ev = EvDelay 2000) evs))"
    by (rule checkMergeability_shape)
next
  let ?get = "EvPullsGet App (owner_login (repo (base pr))) (name (repo (base pr))) (number pr)"
  assume a: "pulls_get w tr App (owner_login (repo (base pr))) (name (repo (base pr))) (number pr) = Inr u1 \<and>
      undecided u1 \<and>
    pulls_get w (tr @ [?get (Inr u1), EvDelay 2000])
      App (owner_login (repo (base pr))) (name (repo (base pr))) (number pr) = Inr u2 \<and>
      undecided u2 \<and>
    pulls_get w (tr @ [?get (Inr u1), EvDelay 2000, ?get (Inr u2), EvDelay 2000])
      App (owner_login (repo (base pr))) (name (repo (base pr))) (number pr) = Inr c \<and>
      \<not> undecided c"
  have 1: "checkMergeability w pr 3 tr = checkMergeability w pr 2 (tr @ [?get (Inr u1), EvDelay 2000])"
    using a by (subst checkMergeability_unfold) simp
  have 2: "checkMergeability w pr 2 (tr @ [?get (Inr u1), EvDelay 2000]) =
      checkMergeability w pr 1 (tr @ [?get (Inr u1), EvDelay 2000, ?get (Inr u2), EvDelay 2000])"
    using a by (subst checkMergeability_unfold) simp
  have 3: "checkMergeability w pr 1 (tr @ [?get (Inr u1), EvDelay 2000, ?get (Inr u2), EvDelay 2000]) =
      (Inr c, tr @ [?get (Inr u1), EvDelay 2000, ?get (Inr u2), EvDelay 2000, ?get (Inr c)])"
    using a by (subst checkMergeability_unfold) simp
  from 1 2 3 show "checkMergeability w pr 3 tr =
        (Inr c, tr @ [?get (Inr u1), EvDelay 2000, ?get (Inr u2), EvDelay 2000, ?get (Inr c)])"
    by simp
next
  assume "pulls_get w tr App (owner_login (repo (base pr))) (name (repo (base pr))) (number pr) = Inr pull \<and>
      undecided pull \<and> 0 < n"
  then show "checkMergeability w pr n tr =
        checkMergeability w pr (n - 1)
          (tr @ [EvPullsGet App (owner_login (repo (base pr))) (name (repo (base pr))) (number pr) (Inr pull),
                 EvDelay 2000])"
    by (subst checkMergeability_unfold) simp
next
  assume "pulls_get w tr App (owner_login (repo (base pr))) (name (repo (base pr))) (number pr) = Inr pull \<and>
      undecided pull \<and> n \<le> 0"
  then show "checkMergeability w pr n tr =
        (Inr pull,
         tr @ [EvPullsGet App (owner_login (repo (base pr))) (name (repo (base pr))) (number pr) (Inr pull)])"
    by (subst checkMergeability_unfold) simp
next
  assume "pulls_get w tr App (owner_login (repo (base pr))) (name (repo (base pr))) (number pr) = Inr pull \<and>
      \<not> undecided pull"
  then show "checkMergeability w pr n tr =
        (Inr pull,
         tr @ [EvPullsGet App (owner_login (repo (base pr))) (name (repo (base pr))) (number pr) (Inr pull)])"
    by (subst checkMergeability_unfold) simp
qed

theorem checkMergeability_polls_witness:
  "checkMergeability (verdicts [unknownPR, unknownPR, releasePR]) releasePR 3 [] =
     (Inr releasePR,
      [EvPullsGet App ''acme'' ''app'' 7 (Inr unknownPR), EvDelay 2000,
       EvPullsGet App ''acme'' ''app'' 7 (Inr unknownPR), EvDelay 2000,
       EvPullsGet App ''acme'' ''app'' 7 (Inr releasePR)]) \<and>
   checkMergeability (verdicts [unknownPR]) releasePR 0 [] =
     (Inr unknownPR, [EvPullsGet App ''acme'' ''app'' 7 (Inr unknownPR)])"
proof -
  have u: "undecided unknownPR" "\<not> undecided releasePR"
    by (simp_all add: undecided_def unknownPR_def releasePR_def)
  have id: "owner_login (repo (base releasePR)) = ''acme''" "name (repo (base releasePR)) = ''app''"
    "number releasePR = 7"
    by (simp_all add: releasePR_def sampleRepo_def)
  note scenario = checkMergeability_polls [where w = "verdicts [unknownPR, unknownPR, releasePR]" and pr = releasePR
        and tr = "[]" and ?u1.0 = unknownPR and ?u2.0 = unknownPR and c = releasePR,
        THEN conjunct2, THEN conjunct2, THEN conjunct2, THEN conjunct2]
  have a: "checkMergeability (verdicts [unknownPR, unknownPR, releasePR]) releasePR 3 [] =
     (Inr releasePR,
      [EvPullsGet App ''acme'' ''app'' 7 (Inr unknownPR), EvDelay 2000,
       EvPullsGet App ''acme'' ''app'' 7 (Inr unknownPR), EvDelay 2000,
       EvPullsGet App ''acme'' ''app'' 7 (Inr releasePR)])"
    using scenario u by (simp add: id verdicts_def calm_def)
  note spent = checkMergeability_polls [where w = "verdicts [unknownPR]" and pr = releasePR
        and tr = "[]" and pull = unknownPR and n = 0, THEN conjunct2, THEN conjunct1]
  have b: "checkMergeability (verdicts [unknownPR]) releasePR 0 [] =
     (Inr unknownPR, [EvPullsGet App ''acme'' ''app'' 7 (Inr unknownPR)])"
    using spent u by (simp add: id verdicts_def calm_def)
  from a b show ?thesis by simp
qed

section \<open>The rollup conflict checker\<close>

lemma checkRollupToMaster_after_merge_check:
  assumes "environ w ''GITHUB_WORKSPACE'' = Some dir" "dir \<noteq> []"
    and "canMergeCleanly v w dir ''master'' (ref (head pr)) tr = (Inr mergeMsg, tr1)"
    and "listStatusesForRef w tr1 Actions (sha (head pr)) (owner_login (repo (base pr))) (name (repo (base pr))) = Inr sts"
  shows "checkRollupToMaster v w pr tr =
     (case mergeMsg of
        None \<Rightarrow> (Inr True, tr1 @ [EvListStatuses Actions (sha (head pr)) (owner_login (repo (base pr)))
                                   (name (repo (base pr))) (Inr sts)])
      | Some msg \<Rightarrow>
          bind_io (if needsComment sts then addCommentToPR w pr (rollupDescription pr msg) else pure_io ())
            (\<lambda>_. bind_io (postFailure w pr (rollupDescription pr msg)) (\<lambda>_. pure_io False))
            (tr1 @ [EvListStatuses Actions (sha (head pr)) (owner_login (repo (base pr)))
                      (name (repo (base pr))) (Inr sts)]))"
proof -
  from assms(1,2) have e: "env w ''GITHUB_WORKSPACE'' tr = (Inr dir, tr)"
    by (rule env_set)
  show ?thesis
    by (cases mergeMsg)
       (simp_all add: checkRollupToMaster_def bind_io_def e assms(3,4) listStatuses_def Let_def pure_io_def)
qed


lemma spawn_is_no_report:
  "list_all isSpawn evs \<Longrightarrow> filter isCreateStatus evs = [] \<and> filter isCreateComment evs = []"
  by (induction evs) (auto elim: isSpawn.elims)

lemma checkRollupToMaster_counts:
  assumes run: "checkRollupToMaster v w pr tr = (r, tr')"
  shows "\<exists>evs. tr' = tr @ evs \<and>
     length (filter isCreateStatus evs) \<le> 1 \<and> length (filter isCreateComment evs) \<le> 1 \<and>
     (r = Inr True \<longrightarrow> filter isCreateStatus evs = [] \<and> filter isCreateComment evs = []) \<and>
     (r = Inr False \<longrightarrow> length (filter isCreateStatus evs) = 1)"
proof (cases "env w ''GITHUB_WORKSPACE'' tr")
  case (Pair re tre)
  show ?thesis
  proof (cases re)
    case (Inl e)
    with Pair run have "tr' = tr @ [] \<and> r = Inl e"
      by (auto simp: checkRollupToMaster_def bind_io_def env_def throw_def pure_io_def split: option.splits if_splits)
    then show ?thesis by auto
  next
    case (Inr dir)
    with Pair have d: "environ w ''GITHUB_WORKSPACE'' = Some dir" "dir \<noteq> []" and tre: "tre = tr"
      by (auto simp: env_def throw_def pure_io_def split: option.splits if_splits)
    obtain rm tr1 where cm: "canMergeCleanly v w dir ''master'' (ref (head pr)) tr = (rm, tr1)"
      by (cases "canMergeCleanly v w dir ''master'' (ref (head pr)) tr")
    have "emits (canMergeCleanly v w dir ''master'' (ref (head pr))) isSpawn" by auto
    from emitsD [OF this cm] obtain pre where pre: "tr1 = tr @ pre" "list_all isSpawn pre" by blast
    note none = spawn_is_no_report [OF pre(2)]
    let ?res = "listStatusesForRef w tr1 Actions (sha (head pr)) (owner_login (repo (base pr))) (name (repo (base pr)))"
    let ?L = "EvListStatuses Actions (sha (head pr)) (owner_login (repo (base pr))) (name (repo (base pr))) ?res"
    show ?thesis
    proof (cases rm)
      case (Inl e)
      with run Pair Inr tre cm have "tr' = tr @ pre \<and> r = Inl e"
        using pre by (simp add: checkRollupToMaster_def bind_io_def)
      with none show ?thesis by auto
    next
      case mm: (Inr mergeMsg)
      show ?thesis
      proof (cases ?res)
        case (Inl e)
        with run Pair Inr tre cm mm have "tr' = tr @ (pre @ [?L]) \<and> r = Inl e"
          using pre by (simp add: checkRollupToMaster_def bind_io_def listStatuses_def Let_def)
        with none show ?thesis by auto
      next
        case sts: (Inr sts)
        from checkRollupToMaster_after_merge_check [OF d cm [unfolded mm] sts] run
        have "\<exists>post. tr' = tr1 @ [?L] @ post \<and>
           length (filter isCreateStatus post) \<le> 1 \<and> length (filter isCreateComment post) \<le> 1 \<and>
           (r = Inr True \<longrightarrow> post = []) \<and> (r = Inr False \<longrightarrow> length (filter isCreateStatus post) = 1)"
          by (cases mergeMsg)
             (auto simp: sts bind_io_def pure_io_def addCommentToPR_def postFailure_def Let_def
               split: sum.splits if_splits)
        then obtain post where post: "tr' = tr1 @ [?L] @ post"
           "length (filter isCreateStatus post) \<le> 1" "length (filter isCreateComment post) \<le> 1"
           "r = Inr True \<longrightarrow> post = []" "r = Inr False \<longrightarrow> length (filter isCreateStatus post) = 1"
          by blast
        with pre none have "tr' = tr @ (pre @ [?L] @ post) \<and>
           length (filter isCreateStatus (pre @ [?L] @ post)) \<le> 1 \<and>
           length (filter isCreateComment (pre @ [?L] @ post)) \<le> 1 \<and>
           (r = Inr True \<longrightarrow> filter isCreateStatus (pre @ [?L] @ post) = [] \<and>
              filter isCreateComment (pre @ [?L] @ post) = []) \<and>
           (r = Inr False \<longrightarrow> length (filter isCreateStatus (pre @ [?L] @ post)) = 1)"
          by simp
        then show ?thesis by blast
      qed
    qed
  qed
qed

lemmas conflict_eval = checkRollupToMaster_def canMergeCleanly_def prepare_def afterFailedMerge_def abortMerge_def
  mergeRef_def env_def listStatuses_def addCommentToPR_def postFailure_def needsComment_def
  conflicting_def commandsWhere_def exploratoryMerge_def calm_def conflictRun_def failureStatus_def
  git_def rawGit_def run_git_def nonNull_def COMMON_ARGS_def Let_def io_eval releasePR_def sampleRepo_def

lemma firstCheck_eq: "firstCheck = (Inr False, conflictRun [] True)"
  by (simp add: firstCheck_def conflict_eval)

lemma secondCheck_eq: "secondCheck = (Inr False, conflictRun [] True @ conflictRun [failureStatus] True)"
  by (simp add: secondCheck_def firstCheck_eq) (simp add: conflict_eval)

lemma thirdCheck_eq:
  "thirdCheck = (Inr False, conflictRun [] True @ conflictRun [failureStatus] True @
                   conflictRun [failureStatus, failureStatus] False)"
  by (simp add: thirdCheck_def secondCheck_eq) (simp add: conflict_eval)

text \<open>
  Claim C5, as the code has it. When \<^verbatim>\<open>canMergeCleanly\<close> reports a conflict and the requests
  to the platform succeed, \<^verbatim>\<open>checkRollupToMaster\<close> lists the statuses of the head commit,
  posts the comment unless it is suppressed, posts one \<^verbatim>\<open>failure\<close> status with the fixed
  context on the head commit, and returns \<^verbatim>\<open>false\<close>. The comment is suppressed exactly
  when more than one status with that context exists already and the most recent of
  them is \<^verbatim>\<open>failure\<close> or \<^verbatim>\<open>error\<close>. When the branch merges cleanly the result is \<^verbatim>\<open>true\<close>
  and only the statuses are listed. In every run at most one status and at most one
  comment are posted; none when the result is \<^verbatim>\<open>true\<close>, exactly one status when it is
  \<^verbatim>\<open>false\<close>.
\<close>

theorem checkRollupToMaster_reports:
  "(environ w ''GITHUB_WORKSPACE'' = Some dir \<and> dir \<noteq> [] \<and>
    canMergeCleanly v w dir ''master'' (ref (head pr)) tr = (Inr (Some msg), tr1) \<and>
    listStatusesForRef w tr1 Actions (sha (head pr)) (owner_login (repo (base pr))) (name (repo (base pr))) = Inr sts \<and>
    commentEvs =
      (if needsComment sts
       then [EvCreateComment Actions (number pr) (owner_login (repo (base pr))) (name (repo (base pr)))
               (rollupDescription pr msg) (Inr ())]
       else []) \<and>
    listed = tr1 @ [EvListStatuses Actions (sha (head pr)) (owner_login (repo (base pr)))
                      (name (repo (base pr))) (Inr sts)] \<and>
    (needsComment sts \<longrightarrow>
       createComment w listed Actions (number pr) (owner_login (repo (base pr))) (name (repo (base pr)))
         (rollupDescription pr msg) = Inr ()) \<and>
    createStatus w (listed @ commentEvs) Actions (sha (head pr)) (owner_login (repo (base pr)))
      (name (repo (base pr))) ''failure'' (rollupDescription pr msg) statusContext = Inr ()
    \<longrightarrow>
    checkRollupToMaster v w pr tr =
      (Inr False,
       listed @ commentEvs @
       [EvCreateStatus Actions (sha (head pr)) (owner_login (repo (base pr))) (name (repo (base pr)))
          ''failure'' (rollupDescription pr msg) statusContext (Inr ())])) \<and>
   (environ w ''GITHUB_WORKSPACE'' = Some dir \<and> dir \<noteq> [] \<and>
    canMergeCleanly v w dir ''master'' (ref (head pr)) tr = (Inr None, tr1) \<and>
    listStatusesForRef w tr1 Actions (sha (head pr)) (owner_login (repo (base pr))) (name (repo (base pr))) = Inr sts
    \<longrightarrow>
    checkRollupToMaster v w pr tr =
      (Inr True,
       tr1 @ [EvListStatuses Actions (sha (head pr)) (owner_login (repo (base pr)))
                (name (repo (base pr))) (Inr sts)])) \<and>
   (needsComment sts \<longleftrightarrow>
      \<not> (1 < length (filter (\<lambda>s. status_context s = statusContext) sts) \<and>
         (status_state (hd (filter (\<lambda>s. status_context s = statusContext) sts)) = ''failure'' \<or>
          status_state (hd (filter (\<lambda>s. status_context s = statusContext) sts)) = ''error''))) \<and>
   (checkRollupToMaster v w pr tr = (r, tr') \<longrightarrow>
      (\<exists>evs. tr' = tr @ evs \<and>
         length (filter isCreateStatus evs) \<le> 1 \<and> length (filter isCreateComment evs) \<le> 1 \<and>
         (r = Inr True \<longrightarrow> filter isCreateStatus evs = [] \<and> filter isCreateComment evs = []) \<and>
         (r = Inr False \<longrightarrow> length (filter isCreateStatus evs) = 1)))"
proof (intro conjI impI)
  assume a: "environ w ''GITHUB_WORKSPACE'' = Some dir \<and> dir \<noteq> [] \<and>
    canMergeCleanly v w dir ''master'' (ref (head pr)) tr = (Inr (Some msg), tr1) \<and>
    listStatusesForRef w tr1 Actions (sha (head pr)) (owner_login (repo (base pr))) (name (repo (base pr))) = Inr sts \<and>
    commentEvs =
      (if needsComment sts
       then [EvCreateComment Actions (number pr) (owner_login (repo (base pr))) (name (repo (base pr)))
               (rollupDescription pr msg) (Inr ())]
       else []) \<and>
    listed = tr1 @ [EvListStatuses Actions (sha (head pr)) (owner_login (repo (base pr)))
                      (name (repo (base pr))) (Inr sts)] \<and>
    (needsComment sts \<longrightarrow>
       createComment w listed Actions (number pr) (owner_login (repo (base pr))) (name (repo (base pr)))
         (rollupDescription pr msg) = Inr ()) \<and>
    createStatus w (listed @ commentEvs) Actions (sha (head pr)) (owner_login (repo (base pr)))
      (name (repo (base pr))) ''failure'' (rollupDescription pr msg) statusContext = Inr ()"
  then have d: "environ w ''GITHUB_WORKSPACE'' = Some dir" "dir \<noteq> []"
    and cm: "canMergeCleanly v w dir ''master'' (ref (head pr)) tr = (Inr (Some msg), tr1)"
    and sts: "listStatusesForRef w tr1 Actions (sha (head pr)) (owner_login (repo (base pr))) (name (repo (base pr))) = Inr sts"
    by simp_all
  let ?L = "EvListStatuses Actions (sha (head pr)) (owner_login (repo (base pr))) (name (repo (base pr))) (Inr sts)"
  let ?C = "EvCreateComment Actions (number pr) (owner_login (repo (base pr))) (name (repo (base pr)))
               (rollupDescription pr msg) (Inr ())"
  from a have ce: "commentEvs = (if needsComment sts then [?C] else [])"
    and li: "listed = tr1 @ [?L]"
    and cc: "needsComment sts \<longrightarrow>
       createComment w listed Actions (number pr) (owner_login (repo (base pr))) (name (repo (base pr)))
         (rollupDescription pr msg) = Inr ()"
    and cs: "createStatus w (listed @ commentEvs) Actions (sha (head pr)) (owner_login (repo (base pr)))
      (name (repo (base pr))) ''failure'' (rollupDescription pr msg) statusContext = Inr ()"
    by blast+
  show "checkRollupToMaster v w pr tr =
      (Inr False,
       listed @ commentEvs @
       [EvCreateStatus Actions (sha (head pr)) (owner_login (repo (base pr))) (name (repo (base pr)))
          ''failure'' (rollupDescription pr msg) statusContext (Inr ())])"
  proof (cases "needsComment sts")
    case True
    with cc li have cc': "createComment w (tr1 @ [?L]) Actions (number pr) (owner_login (repo (base pr)))
        (name (repo (base pr))) (rollupDescription pr msg) = Inr ()"
      by simp
    from cs li ce True have cs': "createStatus w (tr1 @ [?L, ?C]) Actions (sha (head pr)) (owner_login (repo (base pr)))
      (name (repo (base pr))) ''failure'' (rollupDescription pr msg) statusContext = Inr ()"
      by simp
    show ?thesis
      unfolding li ce
      by (simp add: checkRollupToMaster_after_merge_check [OF d cm sts] True bind_io_def pure_io_def
          addCommentToPR_def postFailure_def Let_def cc' cs')
  next
    case False
    from cs li ce False have cs': "createStatus w (tr1 @ [?L]) Actions (sha (head pr)) (owner_login (repo (base pr)))
      (name (repo (base pr))) ''failure'' (rollupDescription pr msg) statusContext = Inr ()"
      by simp
    show ?thesis
      unfolding li ce
      by (simp add: checkRollupToMaster_after_merge_check [OF d cm sts] False bind_io_def pure_io_def
          postFailure_def Let_def cs')
  qed
next
  assume "environ w ''GITHUB_WORKSPACE'' = Some dir \<and> dir \<noteq> [] \<and>
    canMergeCleanly v w dir ''master'' (ref (head pr)) tr = (Inr None, tr1) \<and>
    listStatusesForRef w tr1 Actions (sha (head pr)) (owner_login (repo (base pr))) (name (repo (base pr))) = Inr sts"
  then show "checkRollupToMaster v w pr tr =
      (Inr True,
       tr1 @ [EvListStatuses Actions (sha (head pr)) (owner_login (repo (base pr)))
                (name (repo (base pr))) (Inr sts)])"
    using checkRollupToMaster_after_merge_check [of w dir v pr tr None tr1 sts] by simp
next
  show "needsComment sts \<longleftrightarrow>
      \<not> (1 < length (filter (\<lambda>s. status_context s = statusContext) sts) \<and>
         (status_state (hd (filter (\<lambda>s. status_context s = statusContext) sts)) = ''failure'' \<or>
          status_state (hd (filter (\<lambda>s. status_context s = statusContext) sts)) = ''error''))"
    by (cases "filter (\<lambda>s. status_context s = statusContext) sts")
       (simp_all add: needsComment_def Let_def)
next
  assume "checkRollupToMaster v w pr tr = (r, tr')"
  then show "\<exists>evs. tr' = tr @ evs \<and>
         length (filter isCreateStatus evs) \<le> 1 \<and> length (filter isCreateComment evs) \<le> 1 \<and>
         (r = Inr True \<longrightarrow> filter isCreateStatus evs = [] \<and> filter isCreateComment evs = []) \<and>
         (r = Inr False \<longrightarrow> length (filter isCreateStatus evs) = 1)"
    by (rule checkRollupToMaster_counts)
qed

text \<open>
  The comment is not yet suppressed at the second failing check of a commit in a row:
  the first check left one status behind, and one is not more than one. On a platform
  that lists what was posted, the second check posts the comment again.
\<close>

theorem second_rollup_check_comments_again:
  "fst firstCheck = Inr False \<and> fst secondCheck = Inr False \<and>
   statusesIn (snd firstCheck) (sha (head releasePR)) = [failureStatus] \<and>
   filter isCreateComment (drop (length (snd firstCheck)) (snd secondCheck)) =
     [EvCreateComment Actions 7 ''acme'' ''app'' (rollupDescription releasePR conflictOutput) (Inr ())] \<and>
   length (filter isCreateComment (snd secondCheck)) = 2"
  by (simp add: firstCheck_eq secondCheck_eq)
     (simp add: conflictRun_def failureStatus_def releasePR_def)

text \<open>
  The third check in a row is the first to leave the comment out; a clean merge posts
  nothing.
\<close>

theorem checkRollupToMaster_reports_witness:
  "fst thirdCheck = Inr False \<and>
   length (filter isCreateStatus (drop (length (snd secondCheck)) (snd thirdCheck))) = 1 \<and>
   filter isCreateComment (drop (length (snd secondCheck)) (snd thirdCheck)) = [] \<and>
   needsComment [] \<and> needsComment [failureStatus] \<and> \<not> needsComment [failureStatus, failureStatus] \<and>
   fst (checkRollupToMaster GitJs calm releasePR []) = Inr True \<and>
   filter isCreateStatus (snd (checkRollupToMaster GitJs calm releasePR [])) = [] \<and>
   filter isCreateComment (snd (checkRollupToMaster GitJs calm releasePR [])) = []"
proof -
  have third: "fst thirdCheck = Inr False \<and>
     length (filter isCreateStatus (drop (length (snd secondCheck)) (snd thirdCheck))) = 1 \<and>
     filter isCreateComment (drop (length (snd secondCheck)) (snd thirdCheck)) = []"
    by (simp add: thirdCheck_eq secondCheck_eq) (simp add: conflictRun_def)
  have nc: "needsComment [] \<and> needsComment [failureStatus] \<and> \<not> needsComment [failureStatus, failureStatus]"
    using checkRollupToMaster_reports [where sts = "[]", THEN conjunct2, THEN conjunct2, THEN conjunct1]
      checkRollupToMaster_reports [where sts = "[failureStatus]", THEN conjunct2, THEN conjunct2, THEN conjunct1]
      checkRollupToMaster_reports [where sts = "[failureStatus, failureStatus]", THEN conjunct2, THEN conjunct2, THEN conjunct1]
    by (simp add: failureStatus_def)
  obtain r tr' where run: "checkRollupToMaster GitJs calm releasePR [] = (r, tr')"
    by (cases "checkRollupToMaster GitJs calm releasePR []")
  have r: "r = Inr True"
    using run by (simp add: conflict_eval)
  from checkRollupToMaster_reports [where v = GitJs and w = calm and pr = releasePR and tr = "[]" and r = r and tr' = tr',
      THEN conjunct2, THEN conjunct2, THEN conjunct2] run r
  have "filter isCreateStatus tr' = [] \<and> filter isCreateComment tr' = []"
    by auto
  with run r third nc show ?thesis by simp
qed

section \<open>The order of the rollup\<close>

lemma orderedMerge_done: "orderedMerge v br True True evs"
  by (induction evs) auto

lemma orderedMerge_no_requests:
  "list_all (\<lambda>ev. \<not> isPullsMerge ev) evs \<Longrightarrow> orderedMerge v br merged pushed evs"
  by (induction evs arbitrary: merged pushed) auto

lemma orderedMerge_pushed:
  "list_all (\<lambda>ev. \<not> isPullsMerge ev) pre \<Longrightarrow> isPushMaster pe \<Longrightarrow> exitedWith0 pe \<Longrightarrow>
     orderedMerge v br True pushed (pre @ pe # rest)"
proof (induction pre arbitrary: pushed)
  case Nil
  then show ?case by (cases pe) (auto simp: orderedMerge_done)
next
  case (Cons a pre)
  then show ?case by auto
qed

lemma orderedMerge_rollup:
  "list_all (\<lambda>ev. \<not> isPullsMerge ev) pre \<Longrightarrow> isForwardMerge v br fm \<Longrightarrow> exitedWith0 fm \<Longrightarrow>
   isPushMaster pe \<Longrightarrow> exitedWith0 pe \<Longrightarrow>
     orderedMerge v br merged pushed (pre @ fm # pe # rest)"
proof (induction pre arbitrary: merged pushed)
  case Nil
  then show ?case
    by (cases fm; cases pe) (auto simp: orderedMerge_done)
next
  case (Cons a pre)
  then show ?case by auto
qed


lemma spawn_kinds:
  "isForwardMerge v br ev \<Longrightarrow> isSpawn ev"
  "isPushMaster ev \<Longrightarrow> isSpawn ev"
  "isSpawn ev \<Longrightarrow> \<not> isPullsMerge ev \<and> \<not> isCreateStatus ev"
  "exitedOtherwise ev \<Longrightarrow> \<not> notStarted ev \<and> \<not> exitedWith0 ev"
  "isPushMaster ev \<Longrightarrow> \<not> isForwardMerge v br ev"
  by (cases ev rule: exitedWith0.cases; simp add: COMMON_ARGS_def)+

lemma args_simps:
  "nonNull (Some x # xs) = x # nonNull xs" "nonNull (None # xs) = nonNull xs" "nonNull [] = []"
  by (simp_all add: nonNull_def)

lemma emits_prepare_quiet:
  "emits (prepare v w dir b mb) (\<lambda>ev. isSpawn ev \<and> \<not> isForwardMerge v' br ev)"
  unfolding prepare_def
  by (intro emits_bind emits_git emits_pure) (simp_all add: args_simps)

lemma emits_abortMerge_quiet:
  "emits (abortMerge v w dir) (\<lambda>ev. isSpawn ev \<and> \<not> isForwardMerge v' br ev)"
  unfolding abortMerge_def
  by (intro emits_bind emits_catch emits_git emits_pure) (auto simp: args_simps split: failure.splits)

lemma emits_afterFailedMerge_quiet:
  "emits (afterFailedMerge v w dir err) (\<lambda>ev. isSpawn ev \<and> \<not> isForwardMerge v' br ev)"
  unfolding afterFailedMerge_def
  by (intro emits_bind emits_abortMerge_quiet) (auto split: failure.splits)

lemma emits_canMergeCleanly_quiet:
  "emits (canMergeCleanly v w dir b mb) (\<lambda>ev. isSpawn ev \<and> \<not> isForwardMerge v' br ev)"
  unfolding canMergeCleanly_def
  by (intro emits_bind emits_catch emits_git emits_pure emits_prepare_quiet emits_abortMerge_quiet
        emits_afterFailedMerge_quiet)
     (simp_all add: args_simps)

lemma emits_setGitRemote_quiet:
  "emits (setGitRemoteToAppPermission v w ctx) (\<lambda>ev. isSpawn ev \<and> \<not> isForwardMerge v' br ev)"
  unfolding setGitRemoteToAppPermission_def setRemote_def removeGitHubConfigs_def
  by (intro emits_bind emits_git emits_rawGit emits_pure) (simp_all add: args_simps COMMON_ARGS_def)

lemma emits_checkRollupToMaster_quiet:
  "emits (checkRollupToMaster v w pr) (quiet v' br)"
proof -
  have other: "\<And>m. emits m (\<lambda>ev. \<not> isPullsMerge ev \<and> \<not> isSpawn ev) \<Longrightarrow> emits m (quiet v' br)"
    by (erule emits_mono) (auto simp: quiet_def dest: spawn_kinds(1))
  have spawn: "\<And>m. emits m (\<lambda>ev. isSpawn ev \<and> \<not> isForwardMerge v' br ev) \<Longrightarrow> emits m (quiet v' br)"
    by (erule emits_mono) (auto simp: quiet_def dest: spawn_kinds(3))
  have l: "emits (listStatuses w pr) (quiet v' br)"
    by (rule other, rule emitsI) (auto simp: listStatuses_def Let_def)
  have c: "\<And>d. emits (addCommentToPR w pr d) (quiet v' br)"
    by (rule other, rule emitsI) (auto simp: addCommentToPR_def Let_def)
  have p: "\<And>d. emits (postFailure w pr d) (quiet v' br)"
    by (rule other, rule emitsI) (auto simp: postFailure_def Let_def)
  show ?thesis
    unfolding checkRollupToMaster_def
    by (intro emits_bind emits_env spawn [OF emits_canMergeCleanly_quiet] l)
       (auto split: option.splits intro!: emits_bind emits_pure c p)
qed

lemma merge_run:
  assumes run: "merge v w dir b br None tr = (rm, tr')"
  shows "\<exists>pre. list_all (\<lambda>ev. isSpawn ev \<and> \<not> isForwardMerge v br ev) pre \<and>
     ((tr' = tr @ pre \<and> rm \<noteq> Inr None) \<or>
      (\<exists>fm post. tr' = tr @ pre @ fm # post \<and> isForwardMerge v br fm \<and>
         list_all (\<lambda>ev. isSpawn ev \<and> \<not> isForwardMerge v br ev) post \<and>
         (notStarted fm \<or> (exitedOtherwise fm \<and> rm \<noteq> Inr None) \<or>
          (exitedWith0 fm \<and> post = [] \<and> rm = Inr None))))"
proof -
  let ?prep = "case v of GitTs \<Rightarrow> pure_io () | GitJs \<Rightarrow> prepare v w dir b br"
  let ?args = "[Some ''merge'', Some ''--quiet'', Some ''--no-edit'', Some (mergeRef v br)]"
  let ?Q = "\<lambda>ev. isSpawn ev \<and> \<not> isForwardMerge v br ev"
  have ep: "emits ?prep ?Q"
    by (cases v) (simp_all add: emits_prepare_quiet emits_pure)
  obtain rp tr1 where p: "?prep tr = (rp, tr1)" by (cases "?prep tr")
  from emitsD [OF ep p] obtain pre where pre: "tr1 = tr @ pre" "list_all ?Q pre" by blast
  show ?thesis
  proof (cases rp)
    case (Inl e)
    with run p have "tr' = tr @ pre \<and> rm \<noteq> Inr None"
      using pre by (auto simp: merge_def bind_io_def)
    with pre show ?thesis by blast
  next
    case (Inr u)
    obtain rg tr2 where g: "git v w dir ?args tr1 = (rg, tr2)" by (cases "git v w dir ?args tr1")
    let ?fm = "EvSpawn dir (COMMON_ARGS @ [''merge'', ''--quiet'', ''--no-edit'', mergeRef v br])
                 (spawn w tr1 dir (COMMON_ARGS @ [''merge'', ''--quiet'', ''--no-edit'', mergeRef v br]))"
    from git_spawned [OF g] have tr2: "tr2 = tr1 @ [?fm]" by (simp add: args_simps)
    have fm: "isForwardMerge v br ?fm" by simp
    show ?thesis
    proof (cases rg)
      case out: (Inr out)
      with g have "exitedWith0 ?fm" by (simp add: git_Inr args_simps)
      moreover from run p Inr g out have "tr' = tr2 \<and> rm = Inr None"
        by (auto simp: merge_def mergeArgs_def bind_io_def catch_io_def pure_io_def)
      ultimately have "tr' = tr @ pre @ ?fm # [] \<and> isForwardMerge v br ?fm \<and> list_all ?Q [] \<and>
          exitedWith0 ?fm \<and> [] = ([]::trace) \<and> rm = Inr None"
        using pre tr2 by simp
      with pre show ?thesis by blast
    next
      case err: (Inl err)
      from run p Inr g err have a: "afterFailedMerge v w dir err tr2 = (rm, tr')"
        by (simp add: merge_def mergeArgs_def bind_io_def catch_io_def)
      from emitsD [OF emits_afterFailedMerge_quiet a] obtain post where
        post: "tr' = tr2 @ post" "list_all ?Q post" by blast
      from git_Inl [OF g [unfolded err]]
      have "notStarted ?fm \<or> (exitedOtherwise ?fm \<and> rm \<noteq> Inr None)"
      proof
        assume "spawn w tr1 dir (COMMON_ARGS @ nonNull ?args) = SpawnFailed \<and> \<not> isExitError err"
        then show ?thesis by (simp add: args_simps)
      next
        assume "\<exists>m code out. spawn w tr1 dir (COMMON_ARGS @ nonNull ?args) = Exited code out \<and>
            code \<noteq> Some 0 \<and> err = ExitError m code (Some out)"
        then obtain m code out where s: "spawn w tr1 dir (COMMON_ARGS @ nonNull ?args) = Exited code out"
          "code \<noteq> Some 0" "err = ExitError m code (Some out)" by blast
        from a s(3) have "rm \<noteq> Inr None"
          by (auto simp: afterFailedMerge_def bind_io_def pure_io_def split: prod.splits sum.splits)
        with s show ?thesis by (simp add: args_simps)
      qed
      with post tr2 pre fm have "tr' = tr @ pre @ ?fm # post \<and> isForwardMerge v br ?fm \<and> list_all ?Q post \<and>
          (notStarted ?fm \<or> (exitedOtherwise ?fm \<and> rm \<noteq> Inr None) \<or>
           (exitedWith0 ?fm \<and> post = [] \<and> rm = Inr None))"
        by auto
      with pre show ?thesis by blast
    qed
  qed
qed

lemma push_run:
  "push v w dir False ''master'' tr = (rp, tr') \<Longrightarrow>
     \<exists>pe. tr' = tr @ [pe] \<and> isPushMaster pe \<and> ((\<exists>out. rp = Inr out) \<longrightarrow> exitedWith0 pe)"
  by (auto simp: push_def args_simps git_Inr dest: git_spawned)

lemma env_run: "env w nm tr = (r, tr') \<Longrightarrow> tr' = tr"
  by (auto simp: env_def throw_def pure_io_def split: option.splits if_splits)

lemma automerge_release_run:
  assumes rel: "isMergingIntoRelease pr" and run: "automerge v w ctx pr tr = (r, tr')"
  shows "\<exists>pre. list_all (quiet v (ref (head pr))) pre \<and>
     (tr' = tr @ pre \<or>
      (list_all (\<lambda>ev. \<not> isCreateStatus ev) pre \<and>
       (\<exists>fm post. tr' = tr @ pre @ fm # post \<and> isForwardMerge v (ref (head pr)) fm \<and>
          list_all (\<lambda>ev. \<not> isCreateStatus ev \<and> \<not> isForwardMerge v (ref (head pr)) ev) post \<and>
          (notStarted fm \<or>
           (exitedOtherwise fm \<and> list_all (\<lambda>ev. \<not> isPullsMerge ev) post) \<or>
           (exitedWith0 fm \<and>
              (list_all (\<lambda>ev. \<not> isPullsMerge ev) post \<or>
               (\<exists>pe rest. post = pe # rest \<and> isPushMaster pe \<and> exitedWith0 pe)))))))"
    (is "?thesis")
proof -
  define br where "br = ref (head pr)"
  let ?Q = "\<lambda>ev. isSpawn ev \<and> \<not> isForwardMerge v br ev"
  let ?N = "\<lambda>ev. \<not> isCreateStatus ev \<and> \<not> isForwardMerge v br ev"
  have Q: "\<And>evs. list_all ?Q evs \<Longrightarrow>
      list_all (quiet v br) evs \<and> list_all ?N evs \<and> list_all (\<lambda>ev. \<not> isCreateStatus ev) evs \<and>
      list_all (\<lambda>ev. \<not> isPullsMerge ev) evs"
    by (auto simp: list_all_iff quiet_def dest: spawn_kinds(3))
  have A: "\<And>pre. list_all (quiet v br) pre \<Longrightarrow> tr' = tr @ pre \<Longrightarrow> ?thesis"
    unfolding br_def by blast
  have B: "\<And>pre fm post. list_all (quiet v br) pre \<Longrightarrow> list_all (\<lambda>ev. \<not> isCreateStatus ev) pre \<Longrightarrow>
      tr' = tr @ pre @ fm # post \<Longrightarrow> isForwardMerge v br fm \<Longrightarrow> list_all ?N post \<Longrightarrow>
      (notStarted fm \<or>
           (exitedOtherwise fm \<and> list_all (\<lambda>ev. \<not> isPullsMerge ev) post) \<or>
           (exitedWith0 fm \<and>
              (list_all (\<lambda>ev. \<not> isPullsMerge ev) post \<or>
               (\<exists>pe rest. post = pe # rest \<and> isPushMaster pe \<and> exitedWith0 pe)))) \<Longrightarrow> ?thesis"
    unfolding br_def by blast
  obtain mm ttl where mt: "mergeMethodAndTitle pr = (mm, ttl)" by (cases "mergeMethodAndTitle pr")
  let ?tail = "\<lambda>dir mergeMsg.
      if mergeMsg \<noteq> None then throw (Thrown ''Merge to master failed'')
      else bind_io (push v w dir False ''master'')
             (\<lambda>_. bind_io (tryMerge w pr mm ttl)
                (\<lambda>mergeOK. if \<not> mergeOK then throw (Thrown ''Merge failed'') else pure_io ()))"
  let ?afterCheck = "\<lambda>canMerge.
      if \<not> canMerge then pure_io ()
      else bind_io (env w ''GITHUB_WORKSPACE'')
             (\<lambda>dir. bind_io (merge v w dir ''master'' (ref (head pr)) None) (?tail dir))"
  from run rel mt have run1:
    "bind_io (setGitRemoteToAppPermission v w ctx) (\<lambda>_. bind_io (checkRollupToMaster v w pr) ?afterCheck) tr = (r, tr')"
    by (simp add: automerge_def)
  obtain r1 t1 where s1: "setGitRemoteToAppPermission v w ctx tr = (r1, t1)"
    by (cases "setGitRemoteToAppPermission v w ctx tr")
  from emitsD [OF emits_setGitRemote_quiet s1] obtain e1 where e1: "t1 = tr @ e1" "list_all ?Q e1" by blast
  show ?thesis
  proof (cases r1)
    case (Inl e)
    with run1 s1 have "tr' = tr @ e1" using e1 by (auto simp: bind_io_def)
    with e1 Q show ?thesis by (intro A [of e1]) auto
  next
    case r1: (Inr u1)
    with run1 s1 have run2: "bind_io (checkRollupToMaster v w pr) ?afterCheck t1 = (r, tr')"
      by (simp add: bind_io_def)
    obtain r2 t2 where s2: "checkRollupToMaster v w pr t1 = (r2, t2)"
      by (cases "checkRollupToMaster v w pr t1")
    from emitsD [OF emits_checkRollupToMaster_quiet s2] obtain e2 where
      e2: "t2 = t1 @ e2" "list_all (quiet v br) e2" by blast
    from checkRollupToMaster_counts [OF s2] e2(1)
    have e2s: "r2 = Inr True \<Longrightarrow> list_all (\<lambda>ev. \<not> isCreateStatus ev) e2"
      by (auto simp: list_all_iff filter_empty_conv)
    have stop: "r2 \<noteq> Inr True \<Longrightarrow> tr' = t2"
      using run2 s2 by (cases r2) (auto simp: bind_io_def pure_io_def)
    show ?thesis
    proof (cases "r2 = Inr True")
      case False
      from stop [OF False] e1 e2 Q show ?thesis by (intro A [of "e1 @ e2"]) auto
    next
      case True
      with run2 s2 have run3:
        "bind_io (env w ''GITHUB_WORKSPACE'')
           (\<lambda>dir. bind_io (merge v w dir ''master'' (ref (head pr)) None) (?tail dir)) t2 = (r, tr')"
        by (simp add: bind_io_def)
      obtain r3 t3 where s3: "env w ''GITHUB_WORKSPACE'' t2 = (r3, t3)"
        by (cases "env w ''GITHUB_WORKSPACE'' t2")
      from env_run [OF s3] have t3: "t3 = t2" .
      show ?thesis
      proof (cases r3)
        case (Inl e)
        with run3 s3 t3 have "tr' = t2" by (auto simp: bind_io_def)
        with e1 e2 Q show ?thesis by (intro A [of "e1 @ e2"]) auto
      next
        case (Inr dir)
        with run3 s3 t3 have run4:
          "bind_io (merge v w dir ''master'' (ref (head pr)) None) (?tail dir) t2 = (r, tr')"
          by (simp add: bind_io_def)
        obtain rm t4 where s4: "merge v w dir ''master'' br None t2 = (rm, t4)"
          by (cases "merge v w dir ''master'' br None t2")
        from run4 s4 have tailrun: "rm = Inr None \<Longrightarrow> ?tail dir None t4 = (r, tr')"
          and failed: "rm \<noteq> Inr None \<Longrightarrow> tr' = t4"
          by (auto simp: bind_io_def br_def throw_def split: sum.splits)
        from merge_run [OF s4] obtain pre3 where
          pre3: "list_all ?Q pre3"
            "(t4 = t2 @ pre3 \<and> rm \<noteq> Inr None) \<or>
             (\<exists>fm post. t4 = t2 @ pre3 @ fm # post \<and> isForwardMerge v br fm \<and> list_all ?Q post \<and>
                (notStarted fm \<or> (exitedOtherwise fm \<and> rm \<noteq> Inr None) \<or>
                 (exitedWith0 fm \<and> post = [] \<and> rm = Inr None)))"
          by blast
        let ?pre = "e1 @ e2 @ pre3"
        have pre: "list_all (quiet v br) ?pre" "list_all (\<lambda>ev. \<not> isCreateStatus ev) ?pre"
          using e1 e2 e2s [OF True] pre3(1) Q by auto
        from pre3(2) show ?thesis
        proof
          assume "t4 = t2 @ pre3 \<and> rm \<noteq> Inr None"
          with failed e1 e2 have "tr' = tr @ ?pre" by simp
          with pre show ?thesis by (intro A [of ?pre])
        next
          assume "\<exists>fm post. t4 = t2 @ pre3 @ fm # post \<and> isForwardMerge v br fm \<and> list_all ?Q post \<and>
                (notStarted fm \<or> (exitedOtherwise fm \<and> rm \<noteq> Inr None) \<or>
                 (exitedWith0 fm \<and> post = [] \<and> rm = Inr None))"
          then obtain fm post where f: "t4 = t2 @ pre3 @ fm # post" "isForwardMerge v br fm" "list_all ?Q post"
            "notStarted fm \<or> (exitedOtherwise fm \<and> rm \<noteq> Inr None) \<or>
                 (exitedWith0 fm \<and> post = [] \<and> rm = Inr None)"
            by blast
          from f(1) e1 e2 have t4: "t4 = tr @ ?pre @ fm # post" by simp
          show ?thesis
          proof (cases "rm = Inr None")
            case False
            with failed t4 have tr': "tr' = tr @ ?pre @ fm # post" by simp
            from False f(4) have "notStarted fm \<or> (exitedOtherwise fm \<and> list_all (\<lambda>ev. \<not> isPullsMerge ev) post)"
              using Q [OF f(3)] by auto
            with pre tr' f Q [OF f(3)] show ?thesis by (intro B [of ?pre fm post]) auto
          next
            case none: True
            from tailrun [OF none]
            have run5: "bind_io (push v w dir False ''master'')
                 (\<lambda>_. bind_io (tryMerge w pr mm ttl)
                    (\<lambda>mergeOK. if \<not> mergeOK then throw (Thrown ''Merge failed'') else pure_io ())) t4 = (r, tr')"
              by simp
            obtain rp t5 where s5: "push v w dir False ''master'' t4 = (rp, t5)"
              by (cases "push v w dir False ''master'' t4")
            from push_run [OF s5] obtain pe where pe: "t5 = t4 @ [pe]" "isPushMaster pe"
              "(\<exists>out. rp = Inr out) \<longrightarrow> exitedWith0 pe" by blast
            have peN: "?N pe" "\<not> isPullsMerge pe"
              using pe(2) spawn_kinds(2,3,5) by blast+
            from none f(4) have fm: "notStarted fm \<or> (exitedWith0 fm \<and> post = [])"
              by auto
            show ?thesis
            proof (cases rp)
              case (Inl e)
              with run5 s5 pe t4 have tr': "tr' = tr @ ?pre @ fm # (post @ [pe])"
                by (auto simp: bind_io_def)
              from fm peN Q [OF f(3)]
              have "list_all ?N (post @ [pe]) \<and>
                (notStarted fm \<or> (exitedWith0 fm \<and> list_all (\<lambda>ev. \<not> isPullsMerge ev) (post @ [pe])))"
                by auto
              with pre tr' f(2) show ?thesis by (intro B [of ?pre fm "post @ [pe]"]) auto
            next
              case (Inr out)
              with pe have pe0: "exitedWith0 pe" by blast
              obtain rt t6 where s6: "tryMerge w pr mm ttl t5 = (rt, t6)"
                by (cases "tryMerge w pr mm ttl t5")
              have "emits (tryMerge w pr mm ttl) ?N"
                by (rule emits_tryMerge) (auto elim: mergesWith.elims)
              from emitsD [OF this s6] obtain e6 where e6: "t6 = t5 @ e6" "list_all ?N e6" by blast
              from run5 s5 Inr s6 have "tr' = t6"
                by (cases rt) (auto simp: bind_io_def throw_def pure_io_def split: if_splits)
              with e6 pe t4 have tr': "tr' = tr @ ?pre @ fm # (post @ pe # e6)" by simp
              from fm peN e6 Q [OF f(3)] pe(2) pe0
              have "list_all ?N (post @ pe # e6) \<and>
                (notStarted fm \<or>
                 (exitedWith0 fm \<and> (\<exists>p rest. post @ pe # e6 = p # rest \<and> isPushMaster p \<and> exitedWith0 p)))"
                by auto
              with pre tr' f(2) show ?thesis by (intro B [of ?pre fm "post @ pe # e6"]) auto
            qed
          qed
        qed
      qed
    qed
  qed
qed

lemma automerge_rollup_order:
  "isMergingIntoRelease pr \<and> automerge v w ctx pr tr = (r, tr') \<longrightarrow>
     (\<exists>evs. tr' = tr @ evs \<and>
        (list_all (\<lambda>ev. \<not> (isForwardMerge v (ref (head pr)) ev \<and> notStarted ev)) evs \<longrightarrow>
           orderedMerge v (ref (head pr)) False False evs) \<and>
        (list_ex isCreateStatus evs \<longrightarrow> filter isPullsMerge evs = []) \<and>
        (list_ex (\<lambda>ev. isForwardMerge v (ref (head pr)) ev \<and> exitedOtherwise ev) evs \<longrightarrow>
           filter isPullsMerge evs = []))"
proof
  assume a: "isMergingIntoRelease pr \<and> automerge v w ctx pr tr = (r, tr')"
  define br where "br = ref (head pr)"
  let ?goal = "\<lambda>evs. tr' = tr @ evs \<and>
        (list_all (\<lambda>ev. \<not> (isForwardMerge v br ev \<and> notStarted ev)) evs \<longrightarrow>
           orderedMerge v br False False evs) \<and>
        (list_ex isCreateStatus evs \<longrightarrow> filter isPullsMerge evs = []) \<and>
        (list_ex (\<lambda>ev. isForwardMerge v br ev \<and> exitedOtherwise ev) evs \<longrightarrow>
           filter isPullsMerge evs = [])"
  have q: "\<And>evs. list_all (quiet v br) evs \<Longrightarrow>
      list_all (\<lambda>ev. \<not> isPullsMerge ev) evs \<and> list_all (\<lambda>ev. \<not> isForwardMerge v br ev) evs"
    by (auto simp: list_all_iff quiet_def)
  have none: "\<And>evs. list_all (\<lambda>ev. \<not> isPullsMerge ev) evs \<Longrightarrow> filter isPullsMerge evs = []"
    by (auto simp: list_all_iff filter_empty_conv)
  from automerge_release_run [of pr v w ctx tr r tr'] a obtain pre where
    pre: "list_all (quiet v br) pre" and
    shape: "tr' = tr @ pre \<or>
      (list_all (\<lambda>ev. \<not> isCreateStatus ev) pre \<and>
       (\<exists>fm post. tr' = tr @ pre @ fm # post \<and> isForwardMerge v br fm \<and>
          list_all (\<lambda>ev. \<not> isCreateStatus ev \<and> \<not> isForwardMerge v br ev) post \<and>
          (notStarted fm \<or>
           (exitedOtherwise fm \<and> list_all (\<lambda>ev. \<not> isPullsMerge ev) post) \<or>
           (exitedWith0 fm \<and>
              (list_all (\<lambda>ev. \<not> isPullsMerge ev) post \<or>
               (\<exists>pe rest. post = pe # rest \<and> isPushMaster pe \<and> exitedWith0 pe))))))"
    unfolding br_def by blast
  from shape have "\<exists>evs. ?goal evs"
  proof
    assume t: "tr' = tr @ pre"
    from q [OF pre] have "list_all (\<lambda>ev. \<not> isPullsMerge ev) pre" by simp
    with t have "?goal pre" by (simp add: orderedMerge_no_requests none)
    then show ?thesis by blast
  next
    assume "list_all (\<lambda>ev. \<not> isCreateStatus ev) pre \<and>
       (\<exists>fm post. tr' = tr @ pre @ fm # post \<and> isForwardMerge v br fm \<and>
          list_all (\<lambda>ev. \<not> isCreateStatus ev \<and> \<not> isForwardMerge v br ev) post \<and>
          (notStarted fm \<or>
           (exitedOtherwise fm \<and> list_all (\<lambda>ev. \<not> isPullsMerge ev) post) \<or>
           (exitedWith0 fm \<and>
              (list_all (\<lambda>ev. \<not> isPullsMerge ev) post \<or>
               (\<exists>pe rest. post = pe # rest \<and> isPushMaster pe \<and> exitedWith0 pe)))))"
    then obtain fm post where
      ns: "list_all (\<lambda>ev. \<not> isCreateStatus ev) pre" and
      t: "tr' = tr @ pre @ fm # post" and fm: "isForwardMerge v br fm" and
      post: "list_all (\<lambda>ev. \<not> isCreateStatus ev \<and> \<not> isForwardMerge v br ev) post" and
      how: "notStarted fm \<or>
           (exitedOtherwise fm \<and> list_all (\<lambda>ev. \<not> isPullsMerge ev) post) \<or>
           (exitedWith0 fm \<and>
              (list_all (\<lambda>ev. \<not> isPullsMerge ev) post \<or>
               (\<exists>pe rest. post = pe # rest \<and> isPushMaster pe \<and> exitedWith0 pe)))"
      by blast
    from fm have fms: "\<not> isPullsMerge fm" "\<not> isCreateStatus fm"
      using spawn_kinds(1,3) by blast+
    note pq = q [OF pre]
    have quietPost: "list_all (\<lambda>ev. \<not> isPullsMerge ev) post \<Longrightarrow> filter isPullsMerge (pre @ fm # post) = [] \<and>
        orderedMerge v br False False (pre @ fm # post)"
      using pq fms by (simp add: orderedMerge_no_requests none)
    have c1: "list_all (\<lambda>ev. \<not> (isForwardMerge v br ev \<and> notStarted ev)) (pre @ fm # post) \<longrightarrow>
           orderedMerge v br False False (pre @ fm # post)"
    proof
      assume "list_all (\<lambda>ev. \<not> (isForwardMerge v br ev \<and> notStarted ev)) (pre @ fm # post)"
      with fm have "\<not> notStarted fm" by simp
      with how consider "list_all (\<lambda>ev. \<not> isPullsMerge ev) post"
        | pe rest where "exitedWith0 fm" "post = pe # rest" "isPushMaster pe" "exitedWith0 pe"
        by blast
      then show "orderedMerge v br False False (pre @ fm # post)"
      proof cases
        case 1
        then show ?thesis using quietPost by simp
      next
        case 2
        with pq fm show ?thesis by (simp add: orderedMerge_rollup)
      qed
    qed
    have c2: "list_ex isCreateStatus (pre @ fm # post) \<longrightarrow> filter isPullsMerge (pre @ fm # post) = []"
      using ns post fms by (auto simp: list_all_iff list_ex_iff)
    have c3: "list_ex (\<lambda>ev. isForwardMerge v br ev \<and> exitedOtherwise ev) (pre @ fm # post) \<longrightarrow>
           filter isPullsMerge (pre @ fm # post) = []"
    proof
      assume "list_ex (\<lambda>ev. isForwardMerge v br ev \<and> exitedOtherwise ev) (pre @ fm # post)"
      with pq post have "exitedOtherwise fm" by (auto simp: list_all_iff list_ex_iff)
      with how spawn_kinds(4) [of fm] have "list_all (\<lambda>ev. \<not> isPullsMerge ev) post" by blast
      then show "filter isPullsMerge (pre @ fm # post) = []" using quietPost by simp
    qed
    from t c1 c2 c3 have "?goal (pre @ fm # post)" by simp
    then show ?thesis by blast
  qed
  then show "\<exists>evs. tr' = tr @ evs \<and>
        (list_all (\<lambda>ev. \<not> (isForwardMerge v (ref (head pr)) ev \<and> notStarted ev)) evs \<longrightarrow>
           orderedMerge v (ref (head pr)) False False evs) \<and>
        (list_ex isCreateStatus evs \<longrightarrow> filter isPullsMerge evs = []) \<and>
        (list_ex (\<lambda>ev. isForwardMerge v (ref (head pr)) ev \<and> exitedOtherwise ev) evs \<longrightarrow>
           filter isPullsMerge evs = [])"
    unfolding br_def .
qed


text \<open>
  Claim C1, as the current orchestrator has it. For a pull request into a release branch,
  whatever \<^verbatim>\<open>automerge\<close> (and so \<^verbatim>\<open>processPR\<close>) adds to the log satisfies: unless the merge
  of the head branch into \<^verbatim>\<open>master\<close> could not be started, every merge request for the
  pull request comes after that merge has exited with status 0 and, after it, the push of
  \<^verbatim>\<open>master\<close> has exited with status 0; if the rollup check posted its status, no merge
  request is sent; and if the merge into \<^verbatim>\<open>master\<close> exited with another status, no merge
  request is sent.
\<close>

theorem rollup_before_merge:
  "(isMergingIntoRelease pr \<and> automerge v w ctx pr tr = (r, tr') \<longrightarrow>
     (\<exists>evs. tr' = tr @ evs \<and>
        (list_all (\<lambda>ev. \<not> (isForwardMerge v (ref (head pr)) ev \<and> notStarted ev)) evs \<longrightarrow>
           orderedMerge v (ref (head pr)) False False evs) \<and>
        (list_ex isCreateStatus evs \<longrightarrow> filter isPullsMerge evs = []) \<and>
        (list_ex (\<lambda>ev. isForwardMerge v (ref (head pr)) ev \<and> exitedOtherwise ev) evs \<longrightarrow>
           filter isPullsMerge evs = []))) \<and>
   (isMergingIntoRelease pr \<and> processPR v w ctx pr tr = (r, tr') \<longrightarrow>
     (\<exists>evs. tr' = tr @ evs \<and>
        (list_all (\<lambda>ev. \<not> (isForwardMerge v (ref (head pr)) ev \<and> notStarted ev)) evs \<longrightarrow>
           orderedMerge v (ref (head pr)) False False evs) \<and>
        (list_ex isCreateStatus evs \<longrightarrow> filter isPullsMerge evs = []) \<and>
        (list_ex (\<lambda>ev. isForwardMerge v (ref (head pr)) ev \<and> exitedOtherwise ev) evs \<longrightarrow>
           filter isPullsMerge evs = [])))"
proof (intro conjI)
  show "isMergingIntoRelease pr \<and> automerge v w ctx pr tr = (r, tr') \<longrightarrow>
     (\<exists>evs. tr' = tr @ evs \<and>
        (list_all (\<lambda>ev. \<not> (isForwardMerge v (ref (head pr)) ev \<and> notStarted ev)) evs \<longrightarrow>
           orderedMerge v (ref (head pr)) False False evs) \<and>
        (list_ex isCreateStatus evs \<longrightarrow> filter isPullsMerge evs = []) \<and>
        (list_ex (\<lambda>ev. isForwardMerge v (ref (head pr)) ev \<and> exitedOtherwise ev) evs \<longrightarrow>
           filter isPullsMerge evs = []))"
    by (rule automerge_rollup_order)
next
  show "isMergingIntoRelease pr \<and> processPR v w ctx pr tr = (r, tr') \<longrightarrow>
     (\<exists>evs. tr' = tr @ evs \<and>
        (list_all (\<lambda>ev. \<not> (isForwardMerge v (ref (head pr)) ev \<and> notStarted ev)) evs \<longrightarrow>
           orderedMerge v (ref (head pr)) False False evs) \<and>
        (list_ex isCreateStatus evs \<longrightarrow> filter isPullsMerge evs = []) \<and>
        (list_ex (\<lambda>ev. isForwardMerge v (ref (head pr)) ev \<and> exitedOtherwise ev) evs \<longrightarrow>
           filter isPullsMerge evs = []))"
  proof
    assume a: "isMergingIntoRelease pr \<and> processPR v w ctx pr tr = (r, tr')"
    show "\<exists>evs. tr' = tr @ evs \<and>
        (list_all (\<lambda>ev. \<not> (isForwardMerge v (ref (head pr)) ev \<and> notStarted ev)) evs \<longrightarrow>
           orderedMerge v (ref (head pr)) False False evs) \<and>
        (list_ex isCreateStatus evs \<longrightarrow> filter isPullsMerge evs = []) \<and>
        (list_ex (\<lambda>ev. isForwardMerge v (ref (head pr)) ev \<and> exitedOtherwise ev) evs \<longrightarrow>
           filter isPullsMerge evs = [])"
    proof (cases "processPR v w ctx pr tr = automerge v w ctx pr tr")
      case True
      with a automerge_rollup_order [of pr v w ctx tr r tr'] show ?thesis by simp
    next
      case False
      then have "processPR v w ctx pr tr = (Inl NoError, tr)"
        by (auto simp: processPR_def throw_def split: if_splits)
      with a have "tr' = tr @ []" by simp
      then show ?thesis by (intro exI [of _ "[]"]) simp
    qed
  qed
qed

lemmas rollup_eval = automerge_def automerge0_def mergeMethodAndTitle_def isMergingIntoRelease_def
  isMergingIntoRelease0_def startsWith_def setGitRemoteToAppPermission_def setGitRemoteToAppPermission0_def
  setRemote_def removeGitHubConfigs_def gitRemote_def input_def newAppToken_def checkRollupToMaster0_def
  tryMerge0_started_def mergePR0_def merge_def mergeArgs_def push_def forwardMergeArgs_def sampleContext_def
  tryMerge_def retry_def mergePR_def

text \<open>
  In the earlier orchestrator the order is the other way round: the merge request for
  the pull request is sent before the head branch is merged into \<^verbatim>\<open>master\<close>.
\<close>

theorem earlier_automerge_merges_first:
  "isMergingIntoRelease0 releasePR \<and>
   fst (automerge0 GitTs calm releasePR []) = Inr () \<and>
   \<not> orderedMerge GitTs (ref (head releasePR)) False False (snd (automerge0 GitTs calm releasePR []))"
  by (simp add: rollup_eval conflict_eval)

lemma automerge_calm:
  "fst (automerge GitJs calm sampleContext releasePR []) = Inr () \<and>
   filter isPullsMerge (snd (automerge GitJs calm sampleContext releasePR [])) =
     [EvPullsMerge App ''acme'' ''app'' 7 None ''abc123'' Merge (Inr 200)] \<and>
   list_all (\<lambda>ev. \<not> (isForwardMerge GitJs ''hotfix'' ev \<and> notStarted ev))
     (snd (automerge GitJs calm sampleContext releasePR []))"
  by (simp add: rollup_eval conflict_eval)

lemma automerge_conflicting:
  "fst (automerge GitJs conflicting sampleContext releasePR []) = Inr () \<and>
   list_ex isCreateStatus (snd (automerge GitJs conflicting sampleContext releasePR []))"
  by (simp add: rollup_eval conflict_eval)

lemma automerge_forward_conflict:
  "fst (automerge GitJs (commandsWhere forwardMergeArgs (Exited (Some 1) conflictOutput)) sampleContext releasePR []) =
     Inl (Thrown ''Merge to master failed'') \<and>
   list_ex (\<lambda>ev. isForwardMerge GitJs ''hotfix'' ev \<and> exitedOtherwise ev)
     (snd (automerge GitJs (commandsWhere forwardMergeArgs (Exited (Some 1) conflictOutput)) sampleContext releasePR []))"
  by (simp add: rollup_eval conflict_eval)

text \<open>
  What the statement above leaves open: a forward merge that cannot be started is taken
  for a clean one by \<^verbatim>\<open>merge\<close> (as in claim C10), and the run goes on to push and to the
  merge request.
\<close>

lemma forward_merge_not_started_goes_on:
  "fst (automerge GitJs (commandsWhere forwardMergeArgs SpawnFailed) sampleContext releasePR []) = Inr () \<and>
   filter isPullsMerge (snd (automerge GitJs (commandsWhere forwardMergeArgs SpawnFailed) sampleContext releasePR [])) =
     [EvPullsMerge App ''acme'' ''app'' 7 None ''abc123'' Merge (Inr 200)] \<and>
   filter exitedWith0
     (filter (isForwardMerge GitJs ''hotfix'')
        (snd (automerge GitJs (commandsWhere forwardMergeArgs SpawnFailed) sampleContext releasePR []))) = []"
  by (simp add: rollup_eval conflict_eval)


theorem rollup_before_merge_witness:
  "orderedMerge GitJs ''hotfix'' False False (snd (automerge GitJs calm sampleContext releasePR [])) \<and>
   filter isPullsMerge (snd (automerge GitJs calm sampleContext releasePR [])) =
     [EvPullsMerge App ''acme'' ''app'' 7 None ''abc123'' Merge (Inr 200)] \<and>
   filter isPullsMerge (snd (automerge GitJs conflicting sampleContext releasePR [])) = [] \<and>
   filter isPullsMerge
     (snd (automerge GitJs (commandsWhere forwardMergeArgs (Exited (Some 1) conflictOutput)) sampleContext releasePR [])) = []"
proof -
  have rel: "isMergingIntoRelease releasePR" and hd: "ref (head releasePR) = ''hotfix''"
    by (simp_all add: isMergingIntoRelease_def startsWith_def releasePR_def)
  have use: "\<And>w. (list_all (\<lambda>ev. \<not> (isForwardMerge GitJs ''hotfix'' ev \<and> notStarted ev))
                  (snd (automerge GitJs w sampleContext releasePR [])) \<longrightarrow>
               orderedMerge GitJs ''hotfix'' False False (snd (automerge GitJs w sampleContext releasePR []))) \<and>
            (list_ex isCreateStatus (snd (automerge GitJs w sampleContext releasePR [])) \<longrightarrow>
               filter isPullsMerge (snd (automerge GitJs w sampleContext releasePR [])) = []) \<and>
            (list_ex (\<lambda>ev. isForwardMerge GitJs ''hotfix'' ev \<and> exitedOtherwise ev)
                  (snd (automerge GitJs w sampleContext releasePR [])) \<longrightarrow>
               filter isPullsMerge (snd (automerge GitJs w sampleContext releasePR [])) = [])"
  proof -
    fix w
    obtain r tr' where run: "automerge GitJs w sampleContext releasePR [] = (r, tr')"
      by (cases "automerge GitJs w sampleContext releasePR []")
    from rollup_before_merge [of releasePR GitJs w sampleContext "[]" r tr', THEN conjunct1] rel run
    show "(list_all (\<lambda>ev. \<not> (isForwardMerge GitJs ''hotfix'' ev \<and> notStarted ev))
                  (snd (automerge GitJs w sampleContext releasePR [])) \<longrightarrow>
               orderedMerge GitJs ''hotfix'' False False (snd (automerge GitJs w sampleContext releasePR []))) \<and>
            (list_ex isCreateStatus (snd (automerge GitJs w sampleContext releasePR [])) \<longrightarrow>
               filter isPullsMerge (snd (automerge GitJs w sampleContext releasePR [])) = []) \<and>
            (list_ex (\<lambda>ev. isForwardMerge GitJs ''hotfix'' ev \<and> exitedOtherwise ev)
                  (snd (automerge GitJs w sampleContext releasePR [])) \<longrightarrow>
               filter isPullsMerge (snd (automerge GitJs w sampleContext releasePR [])) = [])"
      by (simp add: hd)
  qed
  from use [of calm] automerge_calm
    use [of conflicting] automerge_conflicting
    use [of "commandsWhere forwardMergeArgs (Exited (Some 1) conflictOutput)"] automerge_forward_conflict
  show ?thesis by blast
qed

section \<open>The common-ancestor locator\<close>





































end
